theory Spec2Isabelle
  imports Main "HOL-Library.Multiset"
begin

section \<open>Identified values and identity-keyed sets\<close>

text \<open>
  The package \<^verbatim>\<open>effect\<close> describes the lifecycle changes a computation asserts about
  identified domain values. The module \<^verbatim>\<open>effect/effect.py\<close> is embedded function by
  function below. It imports \<^verbatim>\<open>effect.identity\<close> and \<^verbatim>\<open>effect.state_transition\<close>,
  which are modelled from their written description.
\<close>

text \<open>
  Modelled from the spec: \<^verbatim>\<open>effect.identity.IdentifiedValue\<close> is missing. A domain value
  exposes an identity field; its other fields are carried along opaquely. The tests
  declare \<^verbatim>\<open>class X(IdentifiedValue[None]): version: int\<close>, an \<^verbatim>\<open>id\<close> plus further fields.
\<close>

datatype ('i, 'a) identified_value = IdentifiedValue (id_of: 'i) (fields: 'a)

text \<open>
  Modelled from the spec: \<^verbatim>\<open>effect.identity.Identity\<close> is missing. An identity wraps a
  value (\<^verbatim>\<open>identity.value\<close> in \<^verbatim>\<open>effect.py\<close>); two identities compare equal iff the
  identity fields of their values are equal, whatever the other fields hold.
\<close>

datatype ('i, 'a) identity = Identity (identity_value: "('i, 'a) identified_value")

definition identity_eq :: "('i, 'a) identity \<Rightarrow> ('i, 'a) identity \<Rightarrow> bool" where
  "identity_eq x y = (id_of (identity_value x) = id_of (identity_value y))"

text \<open>
  Modelled from the spec: \<^verbatim>\<open>effect.identity.IdentifiedValueSet\<close> is missing. It is a
  mapping from identity to the most recently inserted value of that identity: at most
  one stored value per identity, the latest inserted one standing for a duplicate.
  The model is the sequence of stored values, as iteration yields them. The container
  is unordered: the order of the sequence is not part of its description, two sets are
  compared by \<open>ivs_eq\<close>, which ignores it, and no statement below depends on it.
\<close>

type_synonym ('i, 'a) identified_value_set = "('i, 'a) identified_value list"

definition ids :: "('i, 'a) identified_value list \<Rightarrow> 'i set" where
  "ids vs = set (map id_of vs)"

fun IdentifiedValueSet ::
  "('i, 'a) identified_value list \<Rightarrow> ('i, 'a) identified_value_set" where
  "IdentifiedValueSet [] = []"
| "IdentifiedValueSet (v # vs) =
     (if id_of v \<in> ids vs then IdentifiedValueSet vs else v # IdentifiedValueSet vs)"

definition ivs_eq ::
  "('i, 'a) identified_value_set \<Rightarrow> ('i, 'a) identified_value_set \<Rightarrow> bool" where
  "ivs_eq s t = (set s = set t)"

text \<open>Membership by full value equality.\<close>

definition contains :: "('i, 'a) identified_value_set \<Rightarrow> ('i, 'a) identified_value \<Rightarrow> bool" where
  "contains s v = (v \<in> set s)"

text \<open>The identities of the stored values, each wrapping the stored value.\<close>

definition identities :: "('i, 'a) identified_value_set \<Rightarrow> ('i, 'a) identity list" where
  "identities s = map Identity s"

text \<open>
  Union \<^verbatim>\<open>|\<close>: identities present in either operand, the right operand's value winning a
  conflict. Intersection \<^verbatim>\<open>&\<close>: identities present in both, the value taken from the right
  operand. Difference \<^verbatim>\<open>-\<close>: identities of the left operand that are absent from the right.
\<close>

definition ivs_or ::
  "('i, 'a) identified_value_set \<Rightarrow> ('i, 'a) identified_value_set \<Rightarrow> ('i, 'a) identified_value_set" where
  "ivs_or s t = IdentifiedValueSet (s @ t)"

definition ivs_and ::
  "('i, 'a) identified_value_set \<Rightarrow> ('i, 'a) identified_value_set \<Rightarrow> ('i, 'a) identified_value_set" where
  "ivs_and s t = filter (\<lambda>v. id_of v \<in> ids s) t"

definition ivs_sub ::
  "('i, 'a) identified_value_set \<Rightarrow> ('i, 'a) identified_value_set \<Rightarrow> ('i, 'a) identified_value_set" where
  "ivs_sub s t = filter (\<lambda>v. id_of v \<notin> ids t) s"

section \<open>State transitions\<close>

text \<open>
  Modelled from the spec: \<^verbatim>\<open>effect.state_transition\<close> is missing. Its five classes
  \<^verbatim>\<open>NewValue\<close>, \<^verbatim>\<open>TranslatedValue\<close>, \<^verbatim>\<open>MutatedValue\<close>, \<^verbatim>\<open>DeadValue\<close> and \<^verbatim>\<open>NoValue\<close> each wrap
  a value in a field \<^verbatim>\<open>just\<close>, here the selector \<open>just_of\<close>.
\<close>

datatype 'v state_transition =
    is_NewValue: NewValue (just_of: 'v)
  | is_TranslatedValue: TranslatedValue (just_of: 'v)
  | is_MutatedValue: MutatedValue (just_of: 'v)
  | is_DeadValue: DeadValue (just_of: 'v)
  | is_NoValue: NoValue (just_of: 'v)

datatype error = InvalidStateTransitionError

text \<open>
  Modelled from the spec: the combination \<^verbatim>\<open>left & right\<close> of two tagged values, missing
  with \<^verbatim>\<open>effect.state_transition\<close>. One equation per cell of the table of section 4.2,
  row by row; \<open>Inl\<close> is the raised \<^verbatim>\<open>InvalidStateTransitionError\<close>. The cell for two
  neutral tags reads "right or left; values must then be equal": on equal values the
  two readings agree, and on unequal values, which the table leaves open, the equation
  below takes the right value. No claim settled below depends on that choice.
\<close>

fun state_and ::
  "'v state_transition \<Rightarrow> 'v state_transition \<Rightarrow> error + 'v state_transition" where
  "state_and (NewValue a) (NewValue b) = Inr (NewValue b)"
| "state_and (NewValue a) (TranslatedValue b) = Inl InvalidStateTransitionError"
| "state_and (NewValue a) (MutatedValue b) = Inr (NewValue b)"
| "state_and (NewValue a) (DeadValue b) = Inr (NoValue b)"
| "state_and (NewValue a) (NoValue b) = Inr (NewValue a)"
| "state_and (TranslatedValue a) (NewValue b) = Inl InvalidStateTransitionError"
| "state_and (TranslatedValue a) (TranslatedValue b) = Inr (TranslatedValue b)"
| "state_and (TranslatedValue a) (MutatedValue b) = Inr (TranslatedValue b)"
| "state_and (TranslatedValue a) (DeadValue b) = Inr (NoValue b)"
| "state_and (TranslatedValue a) (NoValue b) = Inr (TranslatedValue a)"
| "state_and (MutatedValue a) (NewValue b) = Inl InvalidStateTransitionError"
| "state_and (MutatedValue a) (TranslatedValue b) = Inl InvalidStateTransitionError"
| "state_and (MutatedValue a) (MutatedValue b) = Inr (MutatedValue b)"
| "state_and (MutatedValue a) (DeadValue b) = Inr (DeadValue b)"
| "state_and (MutatedValue a) (NoValue b) = Inr (MutatedValue a)"
| "state_and (DeadValue a) (NewValue b) = Inl InvalidStateTransitionError"
| "state_and (DeadValue a) (TranslatedValue b) = Inl InvalidStateTransitionError"
| "state_and (DeadValue a) (MutatedValue b) = Inl InvalidStateTransitionError"
| "state_and (DeadValue a) (DeadValue b) = Inr (DeadValue b)"
| "state_and (DeadValue a) (NoValue b) = Inr (DeadValue a)"
| "state_and (NoValue a) (NewValue b) = Inr (NewValue b)"
| "state_and (NoValue a) (TranslatedValue b) = Inr (TranslatedValue b)"
| "state_and (NoValue a) (MutatedValue b) = Inr (MutatedValue b)"
| "state_and (NoValue a) (DeadValue b) = Inr (DeadValue b)"
| "state_and (NoValue a) (NoValue b) = Inr (NoValue b)"

section \<open>The Effect aggregate\<close>

text \<open>
  \<^verbatim>\<open>class Effect\<close>, a frozen dataclass: the primary value \<^verbatim>\<open>just\<close> and four identity-keyed
  sets. The source gives each bucket a type parameter of its own; the model uses one
  value type for the four, the union of them.
\<close>

record ('j, 'i, 'a) Effect =
  just :: 'j
  new_values :: "('i, 'a) identified_value_set"
  translated_values :: "('i, 'a) identified_value_set"
  mutated_values :: "('i, 'a) identified_value_set"
  dead_values :: "('i, 'a) identified_value_set"

text \<open>
  \<^verbatim>\<open>Effect.of_values_with_state\<close>: each bucket is the \<^verbatim>\<open>IdentifiedValueSet\<close> of the wrapped
  values of the inputs that are instances of the bucket's class, in input order.
\<close>

definition of_values_with_state ::
  "'j \<Rightarrow> ('i, 'a) identified_value state_transition list \<Rightarrow> ('j, 'i, 'a) Effect" where
  "of_values_with_state j values =
     \<lparr> just = j,
       new_values = IdentifiedValueSet [just_of v. v \<leftarrow> values, is_NewValue v],
       translated_values = IdentifiedValueSet [just_of v. v \<leftarrow> values, is_TranslatedValue v],
       mutated_values = IdentifiedValueSet [just_of v. v \<leftarrow> values, is_MutatedValue v],
       dead_values = IdentifiedValueSet [just_of v. v \<leftarrow> values, is_DeadValue v] \<rparr>"

text \<open>\<^verbatim>\<open>Effect.__iter__\<close>: iterates the union of the four buckets, taken left to right.\<close>

definition iter_effect :: "('j, 'i, 'a) Effect \<Rightarrow> ('i, 'a) identified_value list" where
  "iter_effect e =
     ivs_or (ivs_or (ivs_or (new_values e) (translated_values e)) (mutated_values e))
       (dead_values e)"

text \<open>\<^verbatim>\<open>Effect.value_with_state_by_value\<close>: the first bucket that contains the value.\<close>

definition value_with_state_by_value ::
  "('j, 'i, 'a) Effect \<Rightarrow> ('i, 'a) identified_value \<Rightarrow> ('i, 'a) identified_value state_transition" where
  "value_with_state_by_value e v =
     (if contains (new_values e) v then NewValue v
      else if contains (translated_values e) v then TranslatedValue v
      else if contains (mutated_values e) v then MutatedValue v
      else if contains (dead_values e) v then DeadValue v
      else NoValue v)"

text \<open>
  \<^verbatim>\<open>Effect.value_with_state_by_identity\<close>: four scans of the identities of the buckets,
  each returning at the first identity equal to the given one, with the stored value.
\<close>

definition value_with_state_by_identity ::
  "('j, 'i, 'a) Effect \<Rightarrow> ('i, 'a) identity \<Rightarrow> ('i, 'a) identified_value state_transition" where
  "value_with_state_by_identity e idn =
     (case find (identity_eq idn) (identities (new_values e)) of
        Some i \<Rightarrow> NewValue (identity_value i)
      | None \<Rightarrow>
     (case find (identity_eq idn) (identities (translated_values e)) of
        Some i \<Rightarrow> TranslatedValue (identity_value i)
      | None \<Rightarrow>
     (case find (identity_eq idn) (identities (mutated_values e)) of
        Some i \<Rightarrow> MutatedValue (identity_value i)
      | None \<Rightarrow>
     (case find (identity_eq idn) (identities (dead_values e)) of
        Some i \<Rightarrow> DeadValue (identity_value i)
      | None \<Rightarrow> NoValue (identity_value idn)))))"

text \<open>
  Consuming a lazy sequence of results, as \<^verbatim>\<open>tuple(values)\<close> does with the generators of
  \<^verbatim>\<open>__and__\<close>: the first raised error ends the whole consumption.
\<close>

fun collect :: "(error + 'b) list \<Rightarrow> error + 'b list" where
  "collect [] = Inr []"
| "collect (Inl err # rs) = Inl err"
| "collect (Inr x # rs) = (case collect rs of Inl err \<Rightarrow> Inl err | Inr xs \<Rightarrow> Inr (x # xs))"

text \<open>
  \<^verbatim>\<open>Effect.__and__\<close>. The values of the identities on one side only keep the tag their
  side gives them; the identities on both sides combine the two tags. The chained
  generators are consumed by \<^verbatim>\<open>of_values_with_state\<close>; only those of the intersection can
  raise.
\<close>

definition effect_and ::
  "('j, 'i, 'a) Effect \<Rightarrow> ('k, 'i, 'a) Effect \<Rightarrow> error + ('k, 'i, 'a) Effect" where
  "effect_and self right_effect =
     (let left_values = IdentifiedValueSet (iter_effect self);
          right_values = IdentifiedValueSet (iter_effect right_effect);
          left_difference =
            ivs_sub (IdentifiedValueSet (iter_effect self))
              (IdentifiedValueSet (iter_effect right_effect));
          intersection = ivs_and left_values right_values;
          right_difference =
            ivs_sub (IdentifiedValueSet (iter_effect right_effect))
              (IdentifiedValueSet (iter_effect self));
          next_intersection_values =
            map (\<lambda>idn. state_and (value_with_state_by_identity self idn)
                          (value_with_state_by_identity right_effect idn))
              (identities intersection);
          next_left_difference_values = map (value_with_state_by_value self) left_difference;
          next_right_difference_values =
            map (value_with_state_by_value right_effect) right_difference
      in case collect next_intersection_values of
           Inl err \<Rightarrow> Inl err
         | Inr vs \<Rightarrow>
             Inr (of_values_with_state (just right_effect)
                    (next_left_difference_values @ vs @ next_right_difference_values)))"

text \<open>
  \<^verbatim>\<open>Effect.map\<close>. The source passes \<^verbatim>\<open>new_values\<close>, \<^verbatim>\<open>mutated_values\<close> and \<^verbatim>\<open>dead_values\<close> to
  the constructor and no \<^verbatim>\<open>translated_values\<close>, which therefore takes the field's default,
  the empty \<^verbatim>\<open>IdentifiedValueSet()\<close>.
\<close>

definition map_effect :: "('j \<Rightarrow> 'r) \<Rightarrow> ('j, 'i, 'a) Effect \<Rightarrow> ('r, 'i, 'a) Effect" where
  "map_effect func self =
     \<lparr> just = func (just self),
       new_values = new_values self,
       translated_values = IdentifiedValueSet [],
       mutated_values = mutated_values self,
       dead_values = dead_values self \<rparr>"

text \<open>\<^verbatim>\<open>Effect.and_then\<close>: \<^verbatim>\<open>return self & func(self.just)\<close>.\<close>

definition and_then ::
  "('j, 'i, 'a) Effect \<Rightarrow> ('j \<Rightarrow> ('k, 'i, 'a) Effect) \<Rightarrow> error + ('k, 'i, 'a) Effect" where
  "and_then self func = effect_and self (func (just self))"

section \<open>Notions used in the statements\<close>

text \<open>The identities an Effect tracks: those of the values of its four buckets.\<close>

definition effect_ids :: "('j, 'i, 'a) Effect \<Rightarrow> 'i set" where
  "effect_ids e =
     ids (new_values e) \<union> ids (translated_values e) \<union> ids (mutated_values e) \<union> ids (dead_values e)"

text \<open>
  The invariant of the data model: every bucket stores at most one value per identity,
  and an identity appears in at most one of the four buckets.
\<close>

definition well_formed :: "('j, 'i, 'a) Effect \<Rightarrow> bool" where
  "well_formed e =
     distinct (map id_of (new_values e @ translated_values e @ mutated_values e @ dead_values e))"

text \<open>Equality of Effects with the buckets compared as unordered containers.\<close>

definition effect_eq :: "('j, 'i, 'a) Effect \<Rightarrow> ('j, 'i, 'a) Effect \<Rightarrow> bool" where
  "effect_eq e e' =
     (just e = just e' \<and> ivs_eq (new_values e) (new_values e') \<and>
      ivs_eq (translated_values e) (translated_values e') \<and>
      ivs_eq (mutated_values e) (mutated_values e') \<and>
      ivs_eq (dead_values e) (dead_values e'))"

text \<open>
  The tagged values of an Effect: every stored value under the tag of its bucket, the
  buckets in the order in which the lookups of the source scan them.
\<close>

definition tagged_values ::
  "('j, 'i, 'a) Effect \<Rightarrow> ('i, 'a) identified_value state_transition list" where
  "tagged_values e =
     map NewValue (new_values e) @ map TranslatedValue (translated_values e) @
     map MutatedValue (mutated_values e) @ map DeadValue (dead_values e)"

text \<open>
  The tag an Effect gives an identity: the first tagged value of that identity, or
  \<open>None\<close> when the Effect does not track the identity.
\<close>

definition state_of ::
  "('j, 'i, 'a) Effect \<Rightarrow> 'i \<Rightarrow> ('i, 'a) identified_value state_transition option" where
  "state_of e k = find (\<lambda>s. k = id_of (just_of s)) (tagged_values e)"

text \<open>
  The net tag of an identity after two Effects in sequence, \<open>None\<close> standing for an
  identity that is not tracked: an untracked side leaves the other side as it is, two
  tracked sides combine by the rule of the tags, and a neutral result is not tracked.
\<close>

fun net ::
  "'v state_transition option \<Rightarrow> 'v state_transition option \<Rightarrow> 'v state_transition option" where
  "net None y = y"
| "net (Some s) None = Some s"
| "net (Some s) (Some t) =
     (case state_and s t of
        Inl err \<Rightarrow> None
      | Inr u \<Rightarrow> if is_NoValue u then None else Some u)"

text \<open>
  The tags of one identity in three Effects in sequence for which the two groupings of
  the combination differ: the identity ends Dead after being created or translated and
  deleted, or after being created twice or translated twice.
\<close>

definition nets_out ::
  "'v state_transition \<Rightarrow> 'v state_transition \<Rightarrow> 'v state_transition \<Rightarrow> bool" where
  "nets_out s t r =
     (is_DeadValue r \<and>
      ((is_NewValue s \<or> is_TranslatedValue s) \<and> is_DeadValue t \<or>
       is_NewValue s \<and> is_NewValue t \<or>
       is_TranslatedValue s \<and> is_TranslatedValue t))"

section \<open>Identity-keyed sets\<close>

lemma ids_Nil [simp]: "ids [] = {}"
  by (simp add: ids_def)

lemma ids_Cons [simp]: "ids (v # vs) = insert (id_of v) (ids vs)"
  by (simp add: ids_def)

lemma ids_append [simp]: "ids (xs @ ys) = ids xs \<union> ids ys"
  by (simp add: ids_def)

lemma ids_filter_subset: "ids (filter P vs) \<subseteq> ids vs"
  by (auto simp: ids_def)

lemma set_IdentifiedValueSet_subset: "set (IdentifiedValueSet vs) \<subseteq> set vs"
  by (induction vs) auto

lemma ids_IdentifiedValueSet [simp]: "ids (IdentifiedValueSet vs) = ids vs"
  by (induction vs) auto

lemma distinct_IdentifiedValueSet: "distinct (map id_of (IdentifiedValueSet vs))"
proof (induction vs)
  case Nil
  show ?case by simp
next
  case (Cons v vs)
  have "id_of v \<notin> ids vs \<Longrightarrow> id_of v \<notin> set (map id_of (IdentifiedValueSet vs))"
    using ids_IdentifiedValueSet [of vs] by (simp add: ids_def)
  with Cons show ?case by simp
qed

lemma IdentifiedValueSet_distinct:
  "distinct (map id_of vs) \<Longrightarrow> IdentifiedValueSet vs = vs"
  by (induction vs) (auto simp: ids_def)

lemma IdentifiedValueSet_idem [simp]:
  "IdentifiedValueSet (IdentifiedValueSet vs) = IdentifiedValueSet vs"
  by (simp add: IdentifiedValueSet_distinct distinct_IdentifiedValueSet)

section \<open>The combination rule of two tags\<close>

text \<open>
  C2. A pair of tagged values raises \<^verbatim>\<open>InvalidStateTransitionError\<close> exactly when its
  (left tag, right tag) is one of (New, Translated), (Translated, New), (Mutated, New),
  (Mutated, Translated), (Dead, New), (Dead, Translated), (Dead, Mutated). The wrapped
  values play no part, so the rule holds in particular for two values of one identity.
  The list is directional: (Mutated, New) raises and its swap (New, Mutated) does not;
  every pair outside the list has a result.
\<close>

theorem state_and_invalid_pairs:
  "(state_and l r = Inl InvalidStateTransitionError) =
     (is_NewValue l \<and> is_TranslatedValue r \<or>
      is_TranslatedValue l \<and> is_NewValue r \<or>
      is_MutatedValue l \<and> is_NewValue r \<or>
      is_MutatedValue l \<and> is_TranslatedValue r \<or>
      is_DeadValue l \<and> is_NewValue r \<or>
      is_DeadValue l \<and> is_TranslatedValue r \<or>
      is_DeadValue l \<and> is_MutatedValue r)"
  by (cases l; cases r) simp_all

text \<open>
  The two halves of C4 meet in the cell of two neutral tags: there they ask
  \<^verbatim>\<open>existing(v) & existing(v2)\<close> to be \<^verbatim>\<open>existing(v)\<close> and \<^verbatim>\<open>existing(v2)\<close> at once, which no
  combination can give for two different values. This is the table's condition for that
  cell, "values must then be equal".
\<close>

lemma neutral_cell_no_choice:
  assumes "v \<noteq> v2"
  shows "\<not> (f (NoValue v) (NoValue v2) = Inr (NoValue v) \<and>
            f (NoValue v) (NoValue v2) = Inr (NoValue v2))"
  using assms by auto

text \<open>
  Any combination that agrees with \<open>state_and\<close> wherever the table fixes the result, that
  is everywhere but on two neutral operands with different values, is neutral on both
  sides in the sense of C4, whichever value it takes in the open cell.
\<close>

lemma neutral_tag_identity_any_choice:
  assumes "\<And>l r. \<not> (is_NoValue l \<and> is_NoValue r \<and> just_of l \<noteq> just_of r) \<Longrightarrow> f l r = state_and l r"
  shows "f (NewValue v) (NoValue v2) = Inr (NewValue v) \<and>
     f (TranslatedValue v) (NoValue v2) = Inr (TranslatedValue v) \<and>
     f (MutatedValue v) (NoValue v2) = Inr (MutatedValue v) \<and>
     f (DeadValue v) (NoValue v2) = Inr (DeadValue v) \<and>
     f (NoValue v) (NewValue v2) = Inr (NewValue v2) \<and>
     f (NoValue v) (TranslatedValue v2) = Inr (TranslatedValue v2) \<and>
     f (NoValue v) (MutatedValue v2) = Inr (MutatedValue v2) \<and>
     f (NoValue v) (DeadValue v2) = Inr (DeadValue v2) \<and>
     f (NoValue v) (NoValue v) = Inr (NoValue v)"
  by (simp add: assms)

text \<open>
  C4. The neutral tag is a two-sided identity of the combination of tags. For each of
  the tags New, Translated, Mutated and Dead and all values \<open>v\<close>, \<open>v2\<close>:
  \<^verbatim>\<open>t(v) & existing(v2)\<close> is \<^verbatim>\<open>t(v)\<close>, the right value being dropped, and
  \<^verbatim>\<open>existing(v) & t(v2)\<close> is \<^verbatim>\<open>t(v2)\<close>. For the neutral tag itself the two halves apply to
  the same pair of operands, whose values the table takes to be equal:
  \<^verbatim>\<open>existing(v) & existing(v)\<close> is \<^verbatim>\<open>existing(v)\<close>. The values need not share an identity.
\<close>

theorem neutral_tag_identity:
  "state_and (NewValue v) (NoValue v2) = Inr (NewValue v) \<and>
   state_and (TranslatedValue v) (NoValue v2) = Inr (TranslatedValue v) \<and>
   state_and (MutatedValue v) (NoValue v2) = Inr (MutatedValue v) \<and>
   state_and (DeadValue v) (NoValue v2) = Inr (DeadValue v) \<and>
   state_and (NoValue v) (NewValue v2) = Inr (NewValue v2) \<and>
   state_and (NoValue v) (TranslatedValue v2) = Inr (TranslatedValue v2) \<and>
   state_and (NoValue v) (MutatedValue v2) = Inr (MutatedValue v2) \<and>
   state_and (NoValue v) (DeadValue v2) = Inr (DeadValue v2) \<and>
   state_and (NoValue v) (NoValue v) = Inr (NoValue v)"
  by simp

section \<open>Sequencing\<close>

lemma effect_and_Inr_iff:
  "effect_and l r = Inr e \<longleftrightarrow>
     (\<exists>vs. collect (map (\<lambda>idn. state_and (value_with_state_by_identity l idn)
                                 (value_with_state_by_identity r idn))
                      (identities (ivs_and (iter_effect l) (iter_effect r)))) = Inr vs \<and>
           e = of_values_with_state (just r)
                 (map (value_with_state_by_value l) (ivs_sub (iter_effect l) (iter_effect r)) @ vs @
                  map (value_with_state_by_value r) (ivs_sub (iter_effect r) (iter_effect l))))"
  by (auto simp: effect_and_def Let_def iter_effect_def ivs_or_def split: sum.splits)

text \<open>
  C7. Whenever \<^verbatim>\<open>left & right\<close> succeeds, the \<^verbatim>\<open>just\<close> of the result is the \<^verbatim>\<open>just\<close> of the
  right operand, whatever the buckets of the two operands hold.
\<close>

theorem effect_and_just:
  "effect_and l r = Inr e \<Longrightarrow> just e = just r"
  by (auto simp: effect_and_Inr_iff of_values_with_state_def)

theorem effect_and_just_witness:
  "effect_and
     \<lparr>just = (5::nat), new_values = [IdentifiedValue (0::nat) (1::nat)], translated_values = [],
      mutated_values = [], dead_values = []\<rparr>
     \<lparr>just = True, new_values = [], translated_values = [],
      mutated_values = [IdentifiedValue 0 2], dead_values = [IdentifiedValue 1 7]\<rparr>
   = Inr \<lparr>just = True, new_values = [IdentifiedValue 0 2], translated_values = [],
          mutated_values = [], dead_values = [IdentifiedValue 1 7]\<rparr> \<and>
   just \<lparr>just = True, new_values = [IdentifiedValue (0::nat) (2::nat)], translated_values = [],
          mutated_values = [], dead_values = [IdentifiedValue 1 7]\<rparr> = True"
proof -
  have run: "effect_and
     \<lparr>just = (5::nat), new_values = [IdentifiedValue (0::nat) (1::nat)], translated_values = [],
      mutated_values = [], dead_values = []\<rparr>
     \<lparr>just = True, new_values = [], translated_values = [],
      mutated_values = [IdentifiedValue 0 2], dead_values = [IdentifiedValue 1 7]\<rparr>
   = Inr \<lparr>just = True, new_values = [IdentifiedValue 0 2], translated_values = [],
          mutated_values = [], dead_values = [IdentifiedValue 1 7]\<rparr>"
    by (simp add: effect_and_def iter_effect_def ivs_or_def ivs_and_def ivs_sub_def
        identities_def value_with_state_by_identity_def value_with_state_by_value_def
        identity_eq_def of_values_with_state_def contains_def)
  from effect_and_just [OF run] run show ?thesis by simp
qed

text \<open>
  C8. \<^verbatim>\<open>e.and_then(f)\<close> is \<^verbatim>\<open>e & f(e.just)\<close>: the same Effect, with the same \<^verbatim>\<open>just\<close> and the
  same four buckets, or the same \<^verbatim>\<open>InvalidStateTransitionError\<close>.
\<close>

theorem and_then_is_effect_and:
  "and_then e f = effect_and e (f (just e))"
  by (simp add: and_then_def)

section \<open>Mapping the primary value\<close>

lemma map_effect_kept:
  "just (map_effect f e) = f (just e) \<and> new_values (map_effect f e) = new_values e \<and>
   mutated_values (map_effect f e) = mutated_values e \<and>
   dead_values (map_effect f e) = dead_values e"
  by (simp add: map_effect_def)

text \<open>
  C1 asks \<^verbatim>\<open>map\<close> to change the primary value only and to leave the four buckets as they
  are. The new, mutated and dead buckets are kept (\<open>map_effect_kept\<close>); the translated
  bucket is not: an Effect with one translated value maps to an Effect with none.
\<close>

theorem map_effect_drops_translated:
  "translated_values
     (map_effect (\<lambda>n. n + 1)
        \<lparr>just = (0::nat), new_values = [], translated_values = [IdentifiedValue (0::nat) (1::nat)],
         mutated_values = [], dead_values = []\<rparr>) = [] \<and>
   translated_values
     \<lparr>just = (0::nat), new_values = [], translated_values = [IdentifiedValue (0::nat) (1::nat)],
      mutated_values = [], dead_values = []\<rparr> \<noteq> []"
  by (simp add: map_effect_def)

section \<open>Classifying tagged values\<close>

lemma IdentifiedValueSet_last_stored:
  "id_of v \<notin> ids ws \<Longrightarrow> v \<in> set (IdentifiedValueSet (us @ v # ws))"
  by (induction us) simp_all

lemma of_values_with_state_NoValue:
  "of_values_with_state j (us @ NoValue x # ws) = of_values_with_state j (us @ ws)"
  by (simp add: of_values_with_state_def)

lemma of_values_with_state_NewValue:
  "translated_values (of_values_with_state j (us @ NewValue x # ws))
     = translated_values (of_values_with_state j (us @ ws)) \<and>
   mutated_values (of_values_with_state j (us @ NewValue x # ws))
     = mutated_values (of_values_with_state j (us @ ws)) \<and>
   dead_values (of_values_with_state j (us @ NewValue x # ws))
     = dead_values (of_values_with_state j (us @ ws)) \<and>
   ids (new_values (of_values_with_state j (us @ NewValue x # ws)))
     = insert (id_of x) (ids (new_values (of_values_with_state j (us @ ws)))) \<and>
   (id_of x \<notin> ids [just_of v. v \<leftarrow> ws, is_NewValue v] \<longrightarrow>
      contains (new_values (of_values_with_state j (us @ NewValue x # ws))) x)"
  by (simp add: of_values_with_state_def contains_def IdentifiedValueSet_last_stored)

lemma of_values_with_state_TranslatedValue:
  "new_values (of_values_with_state j (us @ TranslatedValue x # ws))
     = new_values (of_values_with_state j (us @ ws)) \<and>
   mutated_values (of_values_with_state j (us @ TranslatedValue x # ws))
     = mutated_values (of_values_with_state j (us @ ws)) \<and>
   dead_values (of_values_with_state j (us @ TranslatedValue x # ws))
     = dead_values (of_values_with_state j (us @ ws)) \<and>
   ids (translated_values (of_values_with_state j (us @ TranslatedValue x # ws)))
     = insert (id_of x) (ids (translated_values (of_values_with_state j (us @ ws)))) \<and>
   (id_of x \<notin> ids [just_of v. v \<leftarrow> ws, is_TranslatedValue v] \<longrightarrow>
      contains (translated_values (of_values_with_state j (us @ TranslatedValue x # ws))) x)"
  by (simp add: of_values_with_state_def contains_def IdentifiedValueSet_last_stored)

lemma of_values_with_state_MutatedValue:
  "new_values (of_values_with_state j (us @ MutatedValue x # ws))
     = new_values (of_values_with_state j (us @ ws)) \<and>
   translated_values (of_values_with_state j (us @ MutatedValue x # ws))
     = translated_values (of_values_with_state j (us @ ws)) \<and>
   dead_values (of_values_with_state j (us @ MutatedValue x # ws))
     = dead_values (of_values_with_state j (us @ ws)) \<and>
   ids (mutated_values (of_values_with_state j (us @ MutatedValue x # ws)))
     = insert (id_of x) (ids (mutated_values (of_values_with_state j (us @ ws)))) \<and>
   (id_of x \<notin> ids [just_of v. v \<leftarrow> ws, is_MutatedValue v] \<longrightarrow>
      contains (mutated_values (of_values_with_state j (us @ MutatedValue x # ws))) x)"
  by (simp add: of_values_with_state_def contains_def IdentifiedValueSet_last_stored)

lemma of_values_with_state_DeadValue:
  "new_values (of_values_with_state j (us @ DeadValue x # ws))
     = new_values (of_values_with_state j (us @ ws)) \<and>
   translated_values (of_values_with_state j (us @ DeadValue x # ws))
     = translated_values (of_values_with_state j (us @ ws)) \<and>
   mutated_values (of_values_with_state j (us @ DeadValue x # ws))
     = mutated_values (of_values_with_state j (us @ ws)) \<and>
   ids (dead_values (of_values_with_state j (us @ DeadValue x # ws)))
     = insert (id_of x) (ids (dead_values (of_values_with_state j (us @ ws)))) \<and>
   (id_of x \<notin> ids [just_of v. v \<leftarrow> ws, is_DeadValue v] \<longrightarrow>
      contains (dead_values (of_values_with_state j (us @ DeadValue x # ws))) x)"
  by (simp add: of_values_with_state_def contains_def IdentifiedValueSet_last_stored)

lemma of_values_with_state_stored:
  "set (new_values (of_values_with_state j vs)) \<subseteq> just_of ` {v \<in> set vs. is_NewValue v} \<and>
   set (translated_values (of_values_with_state j vs))
     \<subseteq> just_of ` {v \<in> set vs. is_TranslatedValue v} \<and>
   set (mutated_values (of_values_with_state j vs)) \<subseteq> just_of ` {v \<in> set vs. is_MutatedValue v} \<and>
   set (dead_values (of_values_with_state j vs)) \<subseteq> just_of ` {v \<in> set vs. is_DeadValue v}"
  using set_IdentifiedValueSet_subset [of "[just_of v. v \<leftarrow> vs, is_NewValue v]"]
    set_IdentifiedValueSet_subset [of "[just_of v. v \<leftarrow> vs, is_TranslatedValue v]"]
    set_IdentifiedValueSet_subset [of "[just_of v. v \<leftarrow> vs, is_MutatedValue v]"]
    set_IdentifiedValueSet_subset [of "[just_of v. v \<leftarrow> vs, is_DeadValue v]"]
  by (simp add: of_values_with_state_def) blast

text \<open>
  C9, as stated, fails when two inputs of one tag share an identity: a bucket keeps one
  value for each identity, the latest, so of two \<^verbatim>\<open>NewValue\<close> inputs with the identity 0
  the first is an input tagged \<^verbatim>\<open>NewValue\<close> that the new bucket does not hold.
\<close>

theorem of_values_with_state_duplicate_counterexample:
  "NewValue (IdentifiedValue (0::nat) (1::nat)) \<in> set [NewValue (IdentifiedValue (0::nat) (1::nat)), NewValue (IdentifiedValue (0::nat) (2::nat))] \<and>
   id_of (IdentifiedValue (0::nat) (1::nat)) = id_of (IdentifiedValue (0::nat) (2::nat)) \<and>
   new_values (of_values_with_state True [NewValue (IdentifiedValue (0::nat) (1::nat)), NewValue (IdentifiedValue (0::nat) (2::nat))])
     = [IdentifiedValue (0::nat) (2::nat)] \<and>
   \<not> contains (new_values (of_values_with_state True [NewValue (IdentifiedValue (0::nat) (1::nat)), NewValue (IdentifiedValue (0::nat) (2::nat))]))
       (IdentifiedValue (0::nat) (1::nat))"
  by (simp add: of_values_with_state_def contains_def)

text \<open>
  C9, amended. \<^verbatim>\<open>Effect.of_values_with_state\<close>, for every input sequence. An input tagged
  \<^verbatim>\<open>NoValue\<close> is stored in no bucket: leaving it out of the sequence gives the same Effect. An input
  tagged \<^verbatim>\<open>NewValue\<close>, \<^verbatim>\<open>TranslatedValue\<close>, \<^verbatim>\<open>MutatedValue\<close> or \<^verbatim>\<open>DeadValue\<close> goes to the bucket of
  its tag and to no other: leaving it out changes none of the three other buckets, its
  identity is in the bucket of its tag, and the bucket holds the input itself when no
  later input of the same tag has its identity (a bucket keeps the latest value of an
  identity). Conversely every value a bucket stores is an input of the bucket's tag.
\<close>

theorem of_values_with_state_classifies:
  "of_values_with_state j (us @ NoValue x # ws) = of_values_with_state j (us @ ws) \<and>
   translated_values (of_values_with_state j (us @ NewValue x # ws))
     = translated_values (of_values_with_state j (us @ ws)) \<and>
   mutated_values (of_values_with_state j (us @ NewValue x # ws))
     = mutated_values (of_values_with_state j (us @ ws)) \<and>
   dead_values (of_values_with_state j (us @ NewValue x # ws))
     = dead_values (of_values_with_state j (us @ ws)) \<and>
   ids (new_values (of_values_with_state j (us @ NewValue x # ws)))
     = insert (id_of x) (ids (new_values (of_values_with_state j (us @ ws)))) \<and>
   (id_of x \<notin> ids [just_of v. v \<leftarrow> ws, is_NewValue v] \<longrightarrow>
      contains (new_values (of_values_with_state j (us @ NewValue x # ws))) x) \<and>
   new_values (of_values_with_state j (us @ TranslatedValue x # ws))
     = new_values (of_values_with_state j (us @ ws)) \<and>
   mutated_values (of_values_with_state j (us @ TranslatedValue x # ws))
     = mutated_values (of_values_with_state j (us @ ws)) \<and>
   dead_values (of_values_with_state j (us @ TranslatedValue x # ws))
     = dead_values (of_values_with_state j (us @ ws)) \<and>
   ids (translated_values (of_values_with_state j (us @ TranslatedValue x # ws)))
     = insert (id_of x) (ids (translated_values (of_values_with_state j (us @ ws)))) \<and>
   (id_of x \<notin> ids [just_of v. v \<leftarrow> ws, is_TranslatedValue v] \<longrightarrow>
      contains (translated_values (of_values_with_state j (us @ TranslatedValue x # ws))) x) \<and>
   new_values (of_values_with_state j (us @ MutatedValue x # ws))
     = new_values (of_values_with_state j (us @ ws)) \<and>
   translated_values (of_values_with_state j (us @ MutatedValue x # ws))
     = translated_values (of_values_with_state j (us @ ws)) \<and>
   dead_values (of_values_with_state j (us @ MutatedValue x # ws))
     = dead_values (of_values_with_state j (us @ ws)) \<and>
   ids (mutated_values (of_values_with_state j (us @ MutatedValue x # ws)))
     = insert (id_of x) (ids (mutated_values (of_values_with_state j (us @ ws)))) \<and>
   (id_of x \<notin> ids [just_of v. v \<leftarrow> ws, is_MutatedValue v] \<longrightarrow>
      contains (mutated_values (of_values_with_state j (us @ MutatedValue x # ws))) x) \<and>
   new_values (of_values_with_state j (us @ DeadValue x # ws))
     = new_values (of_values_with_state j (us @ ws)) \<and>
   translated_values (of_values_with_state j (us @ DeadValue x # ws))
     = translated_values (of_values_with_state j (us @ ws)) \<and>
   mutated_values (of_values_with_state j (us @ DeadValue x # ws))
     = mutated_values (of_values_with_state j (us @ ws)) \<and>
   ids (dead_values (of_values_with_state j (us @ DeadValue x # ws)))
     = insert (id_of x) (ids (dead_values (of_values_with_state j (us @ ws)))) \<and>
   (id_of x \<notin> ids [just_of v. v \<leftarrow> ws, is_DeadValue v] \<longrightarrow>
      contains (dead_values (of_values_with_state j (us @ DeadValue x # ws))) x) \<and>
   set (new_values (of_values_with_state j vs)) \<subseteq> just_of ` {v \<in> set vs. is_NewValue v} \<and>
   set (translated_values (of_values_with_state j vs)) \<subseteq> just_of ` {v \<in> set vs. is_TranslatedValue v} \<and>
   set (mutated_values (of_values_with_state j vs)) \<subseteq> just_of ` {v \<in> set vs. is_MutatedValue v} \<and>
   set (dead_values (of_values_with_state j vs)) \<subseteq> just_of ` {v \<in> set vs. is_DeadValue v}"
  using of_values_with_state_NoValue [of j us x ws]
    of_values_with_state_NewValue [of j us x ws]
    of_values_with_state_TranslatedValue [of j us x ws]
    of_values_with_state_MutatedValue [of j us x ws]
    of_values_with_state_DeadValue [of j us x ws]
    of_values_with_state_stored [of j vs]
  apply (elim conjE)
  apply (intro conjI)
                      apply assumption+
  done

theorem of_values_with_state_classifies_witness:
  "id_of (IdentifiedValue (0::nat) (2::nat)) \<notin> ids [just_of v. v \<leftarrow> [NoValue (IdentifiedValue (0::nat) (3::nat))], is_NewValue v] \<and>
   id_of (IdentifiedValue (0::nat) (2::nat)) \<notin> ids [just_of v. v \<leftarrow> [NoValue (IdentifiedValue (0::nat) (3::nat))], is_TranslatedValue v] \<and>
   id_of (IdentifiedValue (0::nat) (2::nat)) \<notin> ids [just_of v. v \<leftarrow> [NoValue (IdentifiedValue (0::nat) (3::nat))], is_MutatedValue v] \<and>
   id_of (IdentifiedValue (0::nat) (2::nat)) \<notin> ids [just_of v. v \<leftarrow> [NoValue (IdentifiedValue (0::nat) (3::nat))], is_DeadValue v] \<and>
   contains (new_values (of_values_with_state True ([NewValue (IdentifiedValue (0::nat) (1::nat))] @ NewValue (IdentifiedValue (0::nat) (2::nat)) # [NoValue (IdentifiedValue (0::nat) (3::nat))]))) (IdentifiedValue (0::nat) (2::nat)) \<and>
   contains (translated_values (of_values_with_state True ([NewValue (IdentifiedValue (0::nat) (1::nat))] @ TranslatedValue (IdentifiedValue (0::nat) (2::nat)) # [NoValue (IdentifiedValue (0::nat) (3::nat))]))) (IdentifiedValue (0::nat) (2::nat)) \<and>
   contains (mutated_values (of_values_with_state True ([NewValue (IdentifiedValue (0::nat) (1::nat))] @ MutatedValue (IdentifiedValue (0::nat) (2::nat)) # [NoValue (IdentifiedValue (0::nat) (3::nat))]))) (IdentifiedValue (0::nat) (2::nat)) \<and>
   contains (dead_values (of_values_with_state True ([NewValue (IdentifiedValue (0::nat) (1::nat))] @ DeadValue (IdentifiedValue (0::nat) (2::nat)) # [NoValue (IdentifiedValue (0::nat) (3::nat))]))) (IdentifiedValue (0::nat) (2::nat))"
proof -
  note all = of_values_with_state_classifies
    [of True "[NewValue (IdentifiedValue (0::nat) (1::nat))]" "IdentifiedValue (0::nat) (2::nat)" "[NoValue (IdentifiedValue (0::nat) (3::nat))]" "[]"]
  have h0: "id_of (IdentifiedValue (0::nat) (2::nat)) \<notin> ids [just_of v. v \<leftarrow> [NoValue (IdentifiedValue (0::nat) (3::nat))], is_NewValue v]"
    by simp
  have "id_of (IdentifiedValue (0::nat) (2::nat)) \<notin> ids [just_of v. v \<leftarrow> [NoValue (IdentifiedValue (0::nat) (3::nat))], is_NewValue v] \<longrightarrow>
      contains (new_values (of_values_with_state True ([NewValue (IdentifiedValue (0::nat) (1::nat))] @ NewValue (IdentifiedValue (0::nat) (2::nat)) # [NoValue (IdentifiedValue (0::nat) (3::nat))]))) (IdentifiedValue (0::nat) (2::nat))"
    using all by (elim conjE) assumption
  from this h0 have c0: "contains (new_values (of_values_with_state True ([NewValue (IdentifiedValue (0::nat) (1::nat))] @ NewValue (IdentifiedValue (0::nat) (2::nat)) # [NoValue (IdentifiedValue (0::nat) (3::nat))]))) (IdentifiedValue (0::nat) (2::nat))"
    by (rule mp)
  have h1: "id_of (IdentifiedValue (0::nat) (2::nat)) \<notin> ids [just_of v. v \<leftarrow> [NoValue (IdentifiedValue (0::nat) (3::nat))], is_TranslatedValue v]"
    by simp
  have "id_of (IdentifiedValue (0::nat) (2::nat)) \<notin> ids [just_of v. v \<leftarrow> [NoValue (IdentifiedValue (0::nat) (3::nat))], is_TranslatedValue v] \<longrightarrow>
      contains (translated_values (of_values_with_state True ([NewValue (IdentifiedValue (0::nat) (1::nat))] @ TranslatedValue (IdentifiedValue (0::nat) (2::nat)) # [NoValue (IdentifiedValue (0::nat) (3::nat))]))) (IdentifiedValue (0::nat) (2::nat))"
    using all by (elim conjE) assumption
  from this h1 have c1: "contains (translated_values (of_values_with_state True ([NewValue (IdentifiedValue (0::nat) (1::nat))] @ TranslatedValue (IdentifiedValue (0::nat) (2::nat)) # [NoValue (IdentifiedValue (0::nat) (3::nat))]))) (IdentifiedValue (0::nat) (2::nat))"
    by (rule mp)
  have h2: "id_of (IdentifiedValue (0::nat) (2::nat)) \<notin> ids [just_of v. v \<leftarrow> [NoValue (IdentifiedValue (0::nat) (3::nat))], is_MutatedValue v]"
    by simp
  have "id_of (IdentifiedValue (0::nat) (2::nat)) \<notin> ids [just_of v. v \<leftarrow> [NoValue (IdentifiedValue (0::nat) (3::nat))], is_MutatedValue v] \<longrightarrow>
      contains (mutated_values (of_values_with_state True ([NewValue (IdentifiedValue (0::nat) (1::nat))] @ MutatedValue (IdentifiedValue (0::nat) (2::nat)) # [NoValue (IdentifiedValue (0::nat) (3::nat))]))) (IdentifiedValue (0::nat) (2::nat))"
    using all by (elim conjE) assumption
  from this h2 have c2: "contains (mutated_values (of_values_with_state True ([NewValue (IdentifiedValue (0::nat) (1::nat))] @ MutatedValue (IdentifiedValue (0::nat) (2::nat)) # [NoValue (IdentifiedValue (0::nat) (3::nat))]))) (IdentifiedValue (0::nat) (2::nat))"
    by (rule mp)
  have h3: "id_of (IdentifiedValue (0::nat) (2::nat)) \<notin> ids [just_of v. v \<leftarrow> [NoValue (IdentifiedValue (0::nat) (3::nat))], is_DeadValue v]"
    by simp
  have "id_of (IdentifiedValue (0::nat) (2::nat)) \<notin> ids [just_of v. v \<leftarrow> [NoValue (IdentifiedValue (0::nat) (3::nat))], is_DeadValue v] \<longrightarrow>
      contains (dead_values (of_values_with_state True ([NewValue (IdentifiedValue (0::nat) (1::nat))] @ DeadValue (IdentifiedValue (0::nat) (2::nat)) # [NoValue (IdentifiedValue (0::nat) (3::nat))]))) (IdentifiedValue (0::nat) (2::nat))"
    using all by (elim conjE) assumption
  from this h3 have c3: "contains (dead_values (of_values_with_state True ([NewValue (IdentifiedValue (0::nat) (1::nat))] @ DeadValue (IdentifiedValue (0::nat) (2::nat)) # [NoValue (IdentifiedValue (0::nat) (3::nat))]))) (IdentifiedValue (0::nat) (2::nat))"
    by (rule mp)
  from h0 h1 h2 h3 c0 c1 c2 c3 show ?thesis
    by (intro conjI)
qed

section \<open>Iterating an Effect\<close>

lemma ids_iter_effect: "ids (iter_effect e) = effect_ids e"
  by (simp add: iter_effect_def ivs_or_def effect_ids_def)

lemma distinct_iter_effect: "distinct (map id_of (iter_effect e))"
  by (simp add: iter_effect_def ivs_or_def distinct_IdentifiedValueSet)



lemma iter_effect_well_formed:
  assumes "well_formed e"
  shows "iter_effect e = new_values e @ translated_values e @ mutated_values e @ dead_values e"
proof -
  let ?n = "new_values e" and ?t = "translated_values e"
  let ?m = "mutated_values e" and ?d = "dead_values e"
  have d: "distinct (map id_of (?n @ ?t @ ?m @ ?d))"
    using assms by (simp add: well_formed_def)
  have "distinct (map id_of (?n @ ?t))"
    using d by auto
  then have 1: "ivs_or ?n ?t = ?n @ ?t"
    unfolding ivs_or_def by (rule IdentifiedValueSet_distinct)
  have "distinct (map id_of ((?n @ ?t) @ ?m))"
    using d by auto
  then have 2: "ivs_or (?n @ ?t) ?m = (?n @ ?t) @ ?m"
    unfolding ivs_or_def by (rule IdentifiedValueSet_distinct)
  have "distinct (map id_of (((?n @ ?t) @ ?m) @ ?d))"
    using d by auto
  then have 3: "ivs_or ((?n @ ?t) @ ?m) ?d = ((?n @ ?t) @ ?m) @ ?d"
    unfolding ivs_or_def by (rule IdentifiedValueSet_distinct)
  show ?thesis
    unfolding iter_effect_def 1 2 3 by simp
qed



section \<open>Combination raises as a whole\<close>

lemma collect_Inl_iff: "collect rs = Inl err \<longleftrightarrow> Inl err \<in> set rs"
proof (induction rs rule: collect.induct)
  case 1
  show ?case by simp
next
  case (2 err' rs)
  show ?case by (cases err; cases err') simp
next
  case (3 x rs)
  then show ?case by (auto split: sum.splits)
qed

lemma collect_map_Inr [simp]: "collect (map Inr xs) = Inr xs"
  by (induction xs) simp_all

lemma collect_InrD: "collect rs = Inr xs \<Longrightarrow> rs = map Inr xs"
proof (induction rs arbitrary: xs rule: collect.induct)
  case 1
  then show ?case by simp
next
  case (2 err rs)
  then show ?case by simp
next
  case (3 x rs)
  then show ?case by (auto split: sum.splits)
qed

lemma collect_Inr_iff: "collect rs = Inr xs \<longleftrightarrow> rs = map Inr xs"
  using collect_InrD by auto

lemma effect_and_Inl_collect:
  "effect_and l r = Inl err \<longleftrightarrow>
     collect (map (\<lambda>idn. state_and (value_with_state_by_identity l idn)
                             (value_with_state_by_identity r idn))
                (identities (ivs_and (iter_effect l) (iter_effect r)))) = Inl err"
  by (auto simp: effect_and_def Let_def iter_effect_def ivs_or_def split: sum.splits)

lemma effect_and_Inl_iff:
  "effect_and l r = Inl err \<longleftrightarrow>
     (\<exists>w \<in> set (iter_effect r). id_of w \<in> effect_ids l \<and>
        state_and (value_with_state_by_identity l (Identity w))
          (value_with_state_by_identity r (Identity w)) = Inl err)"
  unfolding effect_and_Inl_collect collect_Inl_iff
  by (force simp: identities_def ivs_and_def ids_iter_effect)


lemma value_with_state_by_identity_cong:
  assumes same: "id_of (identity_value i1) = id_of (identity_value i2)"
    and tracked: "id_of (identity_value i1) \<in> effect_ids e"
  shows "value_with_state_by_identity e i1 = value_with_state_by_identity e i2"
proof -
  have eq: "identity_eq i1 = identity_eq i2"
    using same by (simp add: fun_eq_iff identity_eq_def)
  have "find (identity_eq i2) (identities (new_values e)) \<noteq> None \<or>
        find (identity_eq i2) (identities (translated_values e)) \<noteq> None \<or>
        find (identity_eq i2) (identities (mutated_values e)) \<noteq> None \<or>
        find (identity_eq i2) (identities (dead_values e)) \<noteq> None"
    using tracked same
    by (auto simp: effect_ids_def ids_def find_None_iff identities_def identity_eq_def)
  then show ?thesis
    by (auto simp: value_with_state_by_identity_def eq split: option.splits)
qed

text \<open>
  C6. \<^verbatim>\<open>left & right\<close> raises \<^verbatim>\<open>InvalidStateTransitionError\<close> exactly when some identity
  tracked by both operands has an invalid pairing of its two tags, and it returns an
  Effect exactly when no shared identity has one: the result is the error or a whole
  Effect, never a part of one. The operands are frozen dataclass instances and
  \<open>effect_and\<close> is a function of them, so they are what they were.
\<close>

theorem effect_and_all_or_nothing:
  "(effect_and l r = Inl InvalidStateTransitionError) =
     (\<exists>idn. id_of (identity_value idn) \<in> effect_ids l \<inter> effect_ids r \<and>
        state_and (value_with_state_by_identity l idn) (value_with_state_by_identity r idn)
          = Inl InvalidStateTransitionError) \<and>
   (\<exists>e. effect_and l r = Inr e) =
     (\<not> (\<exists>idn. id_of (identity_value idn) \<in> effect_ids l \<inter> effect_ids r \<and>
        state_and (value_with_state_by_identity l idn) (value_with_state_by_identity r idn)
          = Inl InvalidStateTransitionError))"
proof -
  let ?bad = "\<lambda>idn. id_of (identity_value idn) \<in> effect_ids l \<inter> effect_ids r \<and>
        state_and (value_with_state_by_identity l idn) (value_with_state_by_identity r idn)
          = Inl InvalidStateTransitionError"
  have raises: "(effect_and l r = Inl InvalidStateTransitionError) = (\<exists>idn. ?bad idn)"
  proof
    assume "effect_and l r = Inl InvalidStateTransitionError"
    then obtain w where w: "w \<in> set (iter_effect r)" "id_of w \<in> effect_ids l"
      "state_and (value_with_state_by_identity l (Identity w))
          (value_with_state_by_identity r (Identity w)) = Inl InvalidStateTransitionError"
      by (auto simp: effect_and_Inl_iff)
    from w(1) have "id_of w \<in> effect_ids r"
      using ids_iter_effect [of r] by (auto simp: ids_def)
    with w have "?bad (Identity w)" by simp
    then show "\<exists>idn. ?bad idn" ..
  next
    assume "\<exists>idn. ?bad idn"
    then obtain idn where bad: "?bad idn" ..
    then have "id_of (identity_value idn) \<in> ids (iter_effect r)"
      by (simp add: ids_iter_effect)
    then obtain w where w: "w \<in> set (iter_effect r)" "id_of w = id_of (identity_value idn)"
      by (auto simp: ids_def)
    have "value_with_state_by_identity l (Identity w) = value_with_state_by_identity l idn"
      using bad w(2) by (intro value_with_state_by_identity_cong) simp_all
    moreover have "value_with_state_by_identity r (Identity w) = value_with_state_by_identity r idn"
      using bad w(2) by (intro value_with_state_by_identity_cong) simp_all
    ultimately have "id_of w \<in> effect_ids l \<and>
        state_and (value_with_state_by_identity l (Identity w))
          (value_with_state_by_identity r (Identity w)) = Inl InvalidStateTransitionError"
      using bad w(2) by simp
    with w(1) show "effect_and l r = Inl InvalidStateTransitionError"
      unfolding effect_and_Inl_iff by (rule bexI [rotated])
  qed
  have "(\<exists>e. effect_and l r = Inr e) = (effect_and l r \<noteq> Inl InvalidStateTransitionError)"
  proof (cases "effect_and l r")
    case (Inl err)
    then show ?thesis by (cases err) simp
  next
    case (Inr e)
    then show ?thesis by simp
  qed
  with raises show ?thesis by simp
qed

section \<open>The tag of an identity in an Effect\<close>

lemma find_append_case:
  "find P (xs @ ys) = (case find P xs of None \<Rightarrow> find P ys | Some x \<Rightarrow> Some x)"
  by (induction xs) simp_all

lemma find_map_comp: "find P (map f xs) = map_option f (find (P \<circ> f) xs)"
  by (induction xs) simp_all

lemma find_distinct_iff:
  "distinct (map f xs) \<Longrightarrow> (find (\<lambda>x. k = f x) xs = Some x) = (x \<in> set xs \<and> f x = k)"
  by (induction xs) (auto simp: image_iff)

lemma value_with_state_by_identity_state_of:
  "value_with_state_by_identity e idn =
     (case state_of e (id_of (identity_value idn)) of
        Some s \<Rightarrow> s
      | None \<Rightarrow> NoValue (identity_value idn))"
  by (simp add: value_with_state_by_identity_def state_of_def tagged_values_def identities_def
      find_append_case find_map_comp o_def identity_eq_def split: option.splits)

lemma map_id_tagged_values:
  "map (\<lambda>s. id_of (just_of s)) (tagged_values e) =
     map id_of (new_values e @ translated_values e @ mutated_values e @ dead_values e)"
  by (simp add: tagged_values_def o_def)

lemma state_of_Some_iff:
  assumes "well_formed e"
  shows "(state_of e k = Some s) = (s \<in> set (tagged_values e) \<and> id_of (just_of s) = k)"
proof -
  have "distinct (map (\<lambda>s. id_of (just_of s)) (tagged_values e))"
    using assms unfolding map_id_tagged_values well_formed_def .
  then show ?thesis
    unfolding state_of_def by (rule find_distinct_iff)
qed

lemma state_of_None_iff: "(state_of e k = None) = (k \<notin> effect_ids e)"
  by (auto simp: state_of_def find_None_iff tagged_values_def effect_ids_def ids_def)

lemma find_Some_set: "find P xs = Some x \<Longrightarrow> x \<in> set xs \<and> P x"
  by (induction xs) (auto split: if_splits)

lemma tagged_values_not_NoValue: "s \<in> set (tagged_values e) \<Longrightarrow> \<not> is_NoValue s"
  by (auto simp: tagged_values_def)

lemma state_of_SomeD:
  "state_of e k = Some s \<Longrightarrow> s \<in> set (tagged_values e) \<and> id_of (just_of s) = k"
  unfolding state_of_def by (drule find_Some_set) simp

lemma state_of_not_NoValue:
  assumes "state_of e k = Some s"
  shows "\<not> is_NoValue s"
proof -
  from assms have "s \<in> set (tagged_values e)"
    by (simp add: state_of_SomeD)
  then show ?thesis
    by (rule tagged_values_not_NoValue)
qed

lemma tagged_unique:
  assumes "well_formed e" "s \<in> set (tagged_values e)" "t \<in> set (tagged_values e)"
    "id_of (just_of s) = id_of (just_of t)"
  shows "s = t"
proof -
  have "state_of e (id_of (just_of t)) = Some s" "state_of e (id_of (just_of t)) = Some t"
    using assms by (simp_all add: state_of_Some_iff)
  then show ?thesis by simp
qed

lemma just_of_value_with_state_by_value [simp]:
  "just_of (value_with_state_by_value e v) = v"
  by (simp add: value_with_state_by_value_def)

lemma value_with_state_by_value_tagged:
  assumes "v \<in> set (new_values e @ translated_values e @ mutated_values e @ dead_values e)"
  shows "value_with_state_by_value e v \<in> set (tagged_values e)"
  using assms by (auto simp: value_with_state_by_value_def contains_def tagged_values_def)

lemma just_of_tagged_values:
  assumes "s \<in> set (tagged_values e)"
  shows "just_of s \<in> set (new_values e @ translated_values e @ mutated_values e @ dead_values e)"
  using assms by (auto simp: tagged_values_def)

lemma value_with_state_by_value_inverse:
  assumes wf: "well_formed e" and s: "s \<in> set (tagged_values e)"
  shows "value_with_state_by_value e (just_of s) = s"
proof -
  have a: "value_with_state_by_value e (just_of s) \<in> set (tagged_values e)"
    using s by (intro value_with_state_by_value_tagged just_of_tagged_values)
  have b: "id_of (just_of (value_with_state_by_value e (just_of s))) = id_of (just_of s)"
    by simp
  show ?thesis
    by (rule tagged_unique [OF wf a s b])
qed

lemma state_and_just_of:
  "state_and s t = Inr u \<Longrightarrow> just_of u = just_of s \<or> just_of u = just_of t"
  by (cases s; cases t) auto

lemma id_of_value_with_state_by_identity:
  "id_of (just_of (value_with_state_by_identity e idn)) = id_of (identity_value idn)"
proof (cases "state_of e (id_of (identity_value idn))")
  case None
  then show ?thesis by (simp add: value_with_state_by_identity_state_of)
next
  case (Some s)
  then have "id_of (just_of s) = id_of (identity_value idn)"
    by (simp add: state_of_SomeD)
  with Some show ?thesis by (simp add: value_with_state_by_identity_state_of)
qed

lemma map_Inr_map:
  assumes "map F xs = map Inr vs"
    and "\<And>x u. x \<in> set xs \<Longrightarrow> F x = Inr u \<Longrightarrow> g u = h x"
  shows "map g vs = map h xs"
  using assms
proof (induction xs arbitrary: vs)
  case Nil
  then show ?case by simp
next
  case (Cons x xs)
  then obtain u us where vs: "vs = u # us" by (cases vs) auto
  with Cons.prems(1) have "F x = Inr u" "map F xs = map Inr us" by simp_all
  moreover from this Cons.prems(2) have "g u = h x" by simp
  moreover have "map g us = map h xs"
    using \<open>map F xs = map Inr us\<close> Cons.prems(2) by (intro Cons.IH) auto
  ultimately show ?case by (simp add: vs)
qed

lemma map_Inr_set:
  assumes "map F xs = map Inr vs"
  shows "set vs = {u. \<exists>x \<in> set xs. F x = Inr u}"
  using assms
proof (induction xs arbitrary: vs)
  case Nil
  then show ?case by simp
next
  case (Cons x xs)
  then obtain u us where vs: "vs = u # us" by (cases vs) auto
  with Cons.prems have hd: "F x = Inr u" and tl: "map F xs = map Inr us" by simp_all
  have "set us = {u. \<exists>x \<in> set xs. F x = Inr u}"
    using tl by (rule Cons.IH)
  with hd show ?case by (auto simp: vs)
qed

section \<open>A Dead right operand\<close>

lemma concat_map_if:
  "concat (map (\<lambda>v. if P v then [f v] else []) ws) = map f (filter P ws)"
  by (induction ws) simp_all

lemma not_NoValue_iff:
  "(\<not> is_NoValue s) =
     (is_NewValue s \<or> is_TranslatedValue s \<or> is_MutatedValue s \<or> is_DeadValue s)"
  by (cases s) simp_all

lemma effect_ids_of_values_with_state:
  "effect_ids (of_values_with_state j ws) = (\<lambda>s. id_of (just_of s)) ` {s \<in> set ws. \<not> is_NoValue s}"
proof -
  have "effect_ids (of_values_with_state j ws) =
      ids (map just_of (filter is_NewValue ws)) \<union> ids (map just_of (filter is_TranslatedValue ws)) \<union>
      ids (map just_of (filter is_MutatedValue ws)) \<union> ids (map just_of (filter is_DeadValue ws))"
    by (simp add: effect_ids_def of_values_with_state_def concat_map_if)
  also have "\<dots> = (\<lambda>s. id_of (just_of s)) `
      {s \<in> set ws. is_NewValue s \<or> is_TranslatedValue s \<or> is_MutatedValue s \<or> is_DeadValue s}"
    unfolding ids_def by (simp add: image_image) blast
  finally show ?thesis
    by (simp add: not_NoValue_iff)
qed

lemma state_of_new:
  assumes "k \<in> ids (new_values e)"
  shows "\<exists>a. state_of e k = Some (NewValue a)"
proof -
  obtain s where "find (\<lambda>s. k = id_of (just_of s)) (map NewValue (new_values e)) = Some s"
    using assms by (cases "find (\<lambda>s. k = id_of (just_of s)) (map NewValue (new_values e))")
      (auto simp: find_None_iff ids_def)
  moreover from this have "s \<in> set (map NewValue (new_values e))"
    by (auto dest: find_Some_set)
  ultimately show ?thesis
    by (auto simp: state_of_def tagged_values_def find_append_case)
qed

lemma state_of_dead:
  assumes "k \<notin> ids (new_values e)" "k \<notin> ids (translated_values e)"
    "k \<notin> ids (mutated_values e)" "k \<in> ids (dead_values e)"
  shows "\<exists>b. state_of e k = Some (DeadValue b)"
proof -
  have none: "find (\<lambda>s. k = id_of (just_of s)) (map NewValue (new_values e)) = None"
    "find (\<lambda>s. k = id_of (just_of s)) (map TranslatedValue (translated_values e)) = None"
    "find (\<lambda>s. k = id_of (just_of s)) (map MutatedValue (mutated_values e)) = None"
    using assms(1-3) by (auto simp: find_None_iff ids_def)
  obtain s where "find (\<lambda>s. k = id_of (just_of s)) (map DeadValue (dead_values e)) = Some s"
    using assms(4) by (cases "find (\<lambda>s. k = id_of (just_of s)) (map DeadValue (dead_values e))")
      (auto simp: find_None_iff ids_def)
  moreover from this have "s \<in> set (map DeadValue (dead_values e))"
    by (auto dest: find_Some_set)
  ultimately show ?thesis
    by (auto simp: state_of_def tagged_values_def find_append_case none)
qed

lemma new_then_dead_untracked:
  assumes new: "id_of b \<in> ids (new_values l)"
    and dead: "id_of b \<in> ids (dead_values r)"
    and only: "id_of b \<notin> ids (new_values r) \<union> ids (translated_values r) \<union> ids (mutated_values r)"
    and ok: "effect_and l r = Inr e"
  shows "id_of b \<notin> effect_ids e"
proof
  let ?k = "id_of b"
  let ?F = "\<lambda>w. state_and (value_with_state_by_identity l (Identity w))
                    (value_with_state_by_identity r (Identity w))"
  assume "?k \<in> effect_ids e"
  from ok obtain vs where
    vs: "collect (map (\<lambda>idn. state_and (value_with_state_by_identity l idn)
                                 (value_with_state_by_identity r idn))
                      (identities (ivs_and (iter_effect l) (iter_effect r)))) = Inr vs"
    and e: "e = of_values_with_state (just r)
                 (map (value_with_state_by_value l) (ivs_sub (iter_effect l) (iter_effect r)) @ vs @
                  map (value_with_state_by_value r) (ivs_sub (iter_effect r) (iter_effect l)))"
    unfolding effect_and_Inr_iff by blast
  from vs have mapF: "map ?F (ivs_and (iter_effect l) (iter_effect r)) = map Inr vs"
    by (simp add: collect_Inr_iff identities_def o_def)
  have kl: "?k \<in> effect_ids l" using new by (simp add: effect_ids_def)
  have kr: "?k \<in> effect_ids r" using dead by (simp add: effect_ids_def)
  from \<open>?k \<in> effect_ids e\<close> obtain u where
    u: "\<not> is_NoValue u" "id_of (just_of u) = ?k"
    and mem: "u \<in> set (map (value_with_state_by_value l) (ivs_sub (iter_effect l) (iter_effect r)))
      \<or> u \<in> set vs
      \<or> u \<in> set (map (value_with_state_by_value r) (ivs_sub (iter_effect r) (iter_effect l)))"
    unfolding e effect_ids_of_values_with_state by auto
  from mem show False
  proof (elim disjE)
    assume "u \<in> set (map (value_with_state_by_value l) (ivs_sub (iter_effect l) (iter_effect r)))"
    then have "id_of (just_of u) \<notin> ids (iter_effect r)"
      by (auto simp: ivs_sub_def)
    with u kr show False by (simp add: ids_iter_effect)
  next
    assume "u \<in> set (map (value_with_state_by_value r) (ivs_sub (iter_effect r) (iter_effect l)))"
    then have "id_of (just_of u) \<notin> ids (iter_effect l)"
      by (auto simp: ivs_sub_def)
    with u kl show False by (simp add: ids_iter_effect)
  next
    assume "u \<in> set vs"
    then obtain w where w: "?F w = Inr u"
      unfolding map_Inr_set [OF mapF] by blast
    have "id_of (just_of u) = id_of w"
      using state_and_just_of [OF w]
        id_of_value_with_state_by_identity [of l "Identity w"]
        id_of_value_with_state_by_identity [of r "Identity w"]
      by auto
    with u have kw: "id_of w = ?k" by simp
    obtain a' where a': "state_of l ?k = Some (NewValue a')"
      using state_of_new [OF new] by blast
    obtain b' where b': "state_of r ?k = Some (DeadValue b')"
      using state_of_dead [OF _ _ _ dead] only by blast
    have "?F w = Inr (NoValue b')"
      by (simp add: value_with_state_by_identity_state_of kw a' b')
    with w u show False by auto
  qed
qed

lemma new_and_dead_effect:
  assumes "id_of a = id_of b"
  shows "effect_and
      \<lparr>just = a, new_values = [a], translated_values = [],
        mutated_values = [], dead_values = []\<rparr>
      \<lparr>just = b, new_values = [], translated_values = [],
        mutated_values = [], dead_values = [b]\<rparr>
    = Inr \<lparr>just = b, new_values = [], translated_values = [],
        mutated_values = [], dead_values = []\<rparr>"
  using assms
  by (simp add: effect_and_def iter_effect_def ivs_or_def ivs_and_def ivs_sub_def
        identities_def value_with_state_by_identity_def value_with_state_by_value_def
        identity_eq_def of_values_with_state_def contains_def)

text \<open>
  C3. With a Dead right operand: \<^verbatim>\<open>new(a) & dead(b)\<close> and \<^verbatim>\<open>translated(a) & dead(b)\<close> are
  \<^verbatim>\<open>existing(b)\<close>, \<^verbatim>\<open>mutated(a) & dead(b)\<close> and \<^verbatim>\<open>dead(a) & dead(b)\<close> are \<^verbatim>\<open>dead(b)\<close>. At the
  level of Effects, for two values of one identity: the Effect that only creates \<open>a\<close>
  combined with the Effect that only deletes \<open>b\<close> is the Effect with primary value \<open>b\<close>
  and four empty buckets; and in general, when the left Effect has the identity in its
  new bucket and the right Effect has it in its dead bucket only, a successful
  combination tracks the identity in none of its four buckets.
\<close>

theorem dead_right_operand:
  "state_and (NewValue a) (DeadValue b) = Inr (NoValue b) \<and>
   state_and (TranslatedValue a) (DeadValue b) = Inr (NoValue b) \<and>
   state_and (MutatedValue a) (DeadValue b) = Inr (DeadValue b) \<and>
   state_and (DeadValue a) (DeadValue b) = Inr (DeadValue b) \<and>
   (id_of a = id_of b \<longrightarrow>
    effect_and
      \<lparr>just = a, new_values = [a], translated_values = [],
        mutated_values = [], dead_values = []\<rparr>
      \<lparr>just = b, new_values = [], translated_values = [],
        mutated_values = [], dead_values = [b]\<rparr>
    = Inr \<lparr>just = b, new_values = [], translated_values = [],
        mutated_values = [], dead_values = []\<rparr>) \<and>
   (id_of b \<in> ids (new_values l) \<and> id_of b \<in> ids (dead_values r) \<and>
    id_of b \<notin> ids (new_values r) \<union> ids (translated_values r) \<union> ids (mutated_values r) \<and>
    effect_and l r = Inr e \<longrightarrow>
    id_of b \<notin> effect_ids e)"
  using new_and_dead_effect [of a b] new_then_dead_untracked [of b l r e]
  by simp

theorem dead_right_operand_witness:
  "id_of (IdentifiedValue (0::nat) (1::nat)) = id_of (IdentifiedValue (0::nat) (2::nat)) \<and>
   effect_and
      \<lparr>just = IdentifiedValue (0::nat) (1::nat), new_values = [IdentifiedValue (0::nat) (1::nat)], translated_values = [],
        mutated_values = [], dead_values = []\<rparr>
      \<lparr>just = IdentifiedValue (0::nat) (2::nat), new_values = [], translated_values = [],
        mutated_values = [], dead_values = [IdentifiedValue (0::nat) (2::nat)]\<rparr>
    = Inr \<lparr>just = IdentifiedValue (0::nat) (2::nat), new_values = [], translated_values = [],
        mutated_values = [], dead_values = []\<rparr> \<and>
   id_of (IdentifiedValue (0::nat) (2::nat)) \<in> ids (new_values
     \<lparr>just = (7::nat), new_values = [IdentifiedValue (0::nat) (1::nat)], translated_values = [],
      mutated_values = [IdentifiedValue 1 1], dead_values = []\<rparr>) \<and>
   id_of (IdentifiedValue (0::nat) (2::nat)) \<in> ids (dead_values
     \<lparr>just = True, new_values = [IdentifiedValue (2::nat) (2::nat)], translated_values = [],
      mutated_values = [], dead_values = [IdentifiedValue 0 2]\<rparr>) \<and>
   effect_and
     \<lparr>just = (7::nat), new_values = [IdentifiedValue (0::nat) (1::nat)], translated_values = [],
      mutated_values = [IdentifiedValue 1 1], dead_values = []\<rparr>
     \<lparr>just = True, new_values = [IdentifiedValue (2::nat) (2::nat)], translated_values = [],
      mutated_values = [], dead_values = [IdentifiedValue 0 2]\<rparr>
   = Inr \<lparr>just = True, new_values = [IdentifiedValue (2::nat) (2::nat)], translated_values = [],
      mutated_values = [IdentifiedValue 1 1], dead_values = []\<rparr> \<and>
   id_of (IdentifiedValue (0::nat) (2::nat)) \<notin> effect_ids
     \<lparr>just = True, new_values = [IdentifiedValue (2::nat) (2::nat)], translated_values = [],
      mutated_values = [IdentifiedValue 1 1], dead_values = []\<rparr>"
proof -
  have same: "id_of (IdentifiedValue (0::nat) (1::nat)) = id_of (IdentifiedValue (0::nat) (2::nat))"
    by simp
  have run: "effect_and
     \<lparr>just = (7::nat), new_values = [IdentifiedValue (0::nat) (1::nat)], translated_values = [],
      mutated_values = [IdentifiedValue 1 1], dead_values = []\<rparr>
     \<lparr>just = True, new_values = [IdentifiedValue (2::nat) (2::nat)], translated_values = [],
      mutated_values = [], dead_values = [IdentifiedValue 0 2]\<rparr>
   = Inr \<lparr>just = True, new_values = [IdentifiedValue (2::nat) (2::nat)], translated_values = [],
      mutated_values = [IdentifiedValue 1 1], dead_values = []\<rparr>"
    by (simp add: effect_and_def iter_effect_def ivs_or_def ivs_and_def ivs_sub_def
        identities_def value_with_state_by_identity_def value_with_state_by_value_def
        identity_eq_def of_values_with_state_def contains_def)
  have hyp: "id_of (IdentifiedValue (0::nat) (2::nat)) \<in> ids (new_values
     \<lparr>just = (7::nat), new_values = [IdentifiedValue (0::nat) (1::nat)], translated_values = [],
      mutated_values = [IdentifiedValue 1 1], dead_values = []\<rparr>) \<and> id_of (IdentifiedValue (0::nat) (2::nat)) \<in> ids (dead_values
     \<lparr>just = True, new_values = [IdentifiedValue (2::nat) (2::nat)], translated_values = [],
      mutated_values = [], dead_values = [IdentifiedValue 0 2]\<rparr>) \<and>
    id_of (IdentifiedValue (0::nat) (2::nat)) \<notin> ids (new_values
     \<lparr>just = True, new_values = [IdentifiedValue (2::nat) (2::nat)], translated_values = [],
      mutated_values = [], dead_values = [IdentifiedValue 0 2]\<rparr>) \<union> ids (translated_values
     \<lparr>just = True, new_values = [IdentifiedValue (2::nat) (2::nat)], translated_values = [],
      mutated_values = [], dead_values = [IdentifiedValue 0 2]\<rparr>) \<union> ids (mutated_values
     \<lparr>just = True, new_values = [IdentifiedValue (2::nat) (2::nat)], translated_values = [],
      mutated_values = [], dead_values = [IdentifiedValue 0 2]\<rparr>) \<and>
    effect_and
     \<lparr>just = (7::nat), new_values = [IdentifiedValue (0::nat) (1::nat)], translated_values = [],
      mutated_values = [IdentifiedValue 1 1], dead_values = []\<rparr>
     \<lparr>just = True, new_values = [IdentifiedValue (2::nat) (2::nat)], translated_values = [],
      mutated_values = [], dead_values = [IdentifiedValue 0 2]\<rparr>
   = Inr \<lparr>just = True, new_values = [IdentifiedValue (2::nat) (2::nat)], translated_values = [],
      mutated_values = [IdentifiedValue 1 1], dead_values = []\<rparr>"
    using run by simp
  note all = dead_right_operand
    [of "IdentifiedValue (0::nat) (1::nat)" "IdentifiedValue (0::nat) (2::nat)"
      "\<lparr>just = (7::nat), new_values = [IdentifiedValue (0::nat) (1::nat)], translated_values = [],
      mutated_values = [IdentifiedValue 1 1], dead_values = []\<rparr>"
      "\<lparr>just = True, new_values = [IdentifiedValue (2::nat) (2::nat)], translated_values = [],
      mutated_values = [], dead_values = [IdentifiedValue 0 2]\<rparr>"
      "\<lparr>just = True, new_values = [IdentifiedValue (2::nat) (2::nat)], translated_values = [],
      mutated_values = [IdentifiedValue 1 1], dead_values = []\<rparr>"]
  from all same have first: "effect_and
      \<lparr>just = IdentifiedValue (0::nat) (1::nat), new_values = [IdentifiedValue (0::nat) (1::nat)], translated_values = [],
        mutated_values = [], dead_values = []\<rparr>
      \<lparr>just = IdentifiedValue (0::nat) (2::nat), new_values = [], translated_values = [],
        mutated_values = [], dead_values = [IdentifiedValue (0::nat) (2::nat)]\<rparr>
    = Inr \<lparr>just = IdentifiedValue (0::nat) (2::nat), new_values = [], translated_values = [],
        mutated_values = [], dead_values = []\<rparr>"
    by blast
  from all hyp have second: "id_of (IdentifiedValue (0::nat) (2::nat)) \<notin> effect_ids
     \<lparr>just = True, new_values = [IdentifiedValue (2::nat) (2::nat)], translated_values = [],
      mutated_values = [IdentifiedValue 1 1], dead_values = []\<rparr>"
    by blast
  from same first hyp second show ?thesis
    by blast
qed

section \<open>The tagged values of a combination\<close>

lemma distinct_map_filter_append:
  assumes d: "distinct (map g ws)" and dy: "distinct (map g ys)"
    and sub: "set ys \<subseteq> set ws" and neg: "\<And>y. y \<in> set ys \<Longrightarrow> \<not> P y"
  shows "distinct (map g (filter P ws @ ys))"
proof -
  from d have inj: "inj_on g (set ws)"
    by (simp add: distinct_map)
  have "g ` set (filter P ws) \<inter> g ` set ys = {}"
  proof (rule ccontr)
    assume "g ` set (filter P ws) \<inter> g ` set ys \<noteq> {}"
    then obtain x y where x: "x \<in> set ws" "P x" and y: "y \<in> set ys" and eq: "g x = g y"
      by auto
    from y sub have "y \<in> set ws" by blast
    with inj x(1) eq have "x = y" by (simp add: inj_on_def)
    with x(2) neg [OF y] show False by simp
  qed
  moreover have "distinct (map g (filter P ws))"
    using d by (rule distinct_map_filter)
  ultimately show ?thesis
    using dy by simp
qed

lemma tag_exclusive:
  "is_DeadValue s \<Longrightarrow> \<not> is_MutatedValue s \<and> \<not> is_TranslatedValue s \<and> \<not> is_NewValue s"
  "is_MutatedValue s \<Longrightarrow> \<not> is_TranslatedValue s \<and> \<not> is_NewValue s"
  "is_TranslatedValue s \<Longrightarrow> \<not> is_NewValue s"
  by (cases s; simp)+

lemma distinct_four_filters:
  assumes d: "distinct (map g ws)"
  shows "distinct (map g (filter is_NewValue ws @ filter is_TranslatedValue ws @
           filter is_MutatedValue ws @ filter is_DeadValue ws))"
proof -
  have 4: "distinct (map g (filter is_DeadValue ws))"
    using d by (rule distinct_map_filter)
  have 3: "distinct (map g (filter is_MutatedValue ws @ filter is_DeadValue ws))"
  proof (rule distinct_map_filter_append [OF d 4])
    show "set (filter is_DeadValue ws) \<subseteq> set ws" by simp
    show "\<not> is_MutatedValue y" if "y \<in> set (filter is_DeadValue ws)" for y
      using that tag_exclusive [of y] by auto
  qed
  have 2: "distinct (map g (filter is_TranslatedValue ws @ filter is_MutatedValue ws @
      filter is_DeadValue ws))"
  proof (rule distinct_map_filter_append [OF d 3])
    show "set (filter is_MutatedValue ws @ filter is_DeadValue ws) \<subseteq> set ws" by auto
    show "\<not> is_TranslatedValue y"
      if "y \<in> set (filter is_MutatedValue ws @ filter is_DeadValue ws)" for y
      using that tag_exclusive [of y] by auto
  qed
  show ?thesis
  proof (rule distinct_map_filter_append [OF d 2])
    show "set (filter is_TranslatedValue ws @ filter is_MutatedValue ws @ filter is_DeadValue ws)
        \<subseteq> set ws" by auto
    show "\<not> is_NewValue y"
      if "y \<in> set (filter is_TranslatedValue ws @ filter is_MutatedValue ws @
        filter is_DeadValue ws)" for y
      using that tag_exclusive [of y] by auto
  qed
qed

lemma bucket_of_distinct:
  assumes "distinct (map (\<lambda>s. id_of (just_of s)) ws)"
  shows "IdentifiedValueSet (map just_of (filter P ws)) = map just_of (filter P ws)"
proof (rule IdentifiedValueSet_distinct)
  have "distinct (map (\<lambda>s. id_of (just_of s)) (filter P ws))"
    using assms by (rule distinct_map_filter)
  then show "distinct (map id_of (map just_of (filter P ws)))"
    by (simp add: o_def)
qed

lemma tagged_values_of_values_with_state:
  assumes d: "distinct (map (\<lambda>s. id_of (just_of s)) ws)"
  shows "tagged_values (of_values_with_state j ws) =
     filter is_NewValue ws @ filter is_TranslatedValue ws @
     filter is_MutatedValue ws @ filter is_DeadValue ws"
proof -
  have "map (\<lambda>s. NewValue (just_of s)) (filter is_NewValue ws) = filter is_NewValue ws"
    by (rule map_idI) simp
  then have n: "map NewValue (map just_of (filter is_NewValue ws)) = filter is_NewValue ws"
    by (simp add: o_def)
  have "map (\<lambda>s. TranslatedValue (just_of s)) (filter is_TranslatedValue ws) = filter is_TranslatedValue ws"
    by (rule map_idI) simp
  then have t: "map TranslatedValue (map just_of (filter is_TranslatedValue ws)) = filter is_TranslatedValue ws"
    by (simp add: o_def)
  have "map (\<lambda>s. MutatedValue (just_of s)) (filter is_MutatedValue ws) = filter is_MutatedValue ws"
    by (rule map_idI) simp
  then have m: "map MutatedValue (map just_of (filter is_MutatedValue ws)) = filter is_MutatedValue ws"
    by (simp add: o_def)
  have "map (\<lambda>s. DeadValue (just_of s)) (filter is_DeadValue ws) = filter is_DeadValue ws"
    by (rule map_idI) simp
  then have dd: "map DeadValue (map just_of (filter is_DeadValue ws)) = filter is_DeadValue ws"
    by (simp add: o_def)
  show ?thesis
    unfolding tagged_values_def of_values_with_state_def concat_map_if
    by (simp only: Effect.simps bucket_of_distinct [OF d] n t m dd)
qed

lemma well_formed_of_values_with_state:
  assumes d: "distinct (map (\<lambda>s. id_of (just_of s)) ws)"
  shows "well_formed (of_values_with_state j ws)"
proof -
  have "distinct (map (\<lambda>s. id_of (just_of s)) (tagged_values (of_values_with_state j ws)))"
    unfolding tagged_values_of_values_with_state [OF d] using d by (rule distinct_four_filters)
  then show ?thesis
    unfolding map_id_tagged_values well_formed_def .
qed

lemma set_tagged_values_of_values_with_state:
  assumes d: "distinct (map (\<lambda>s. id_of (just_of s)) ws)"
  shows "set (tagged_values (of_values_with_state j ws)) = {s \<in> set ws. \<not> is_NoValue s}"
  unfolding tagged_values_of_values_with_state [OF d] not_NoValue_iff by auto

lemma set_iter_effect_well_formed:
  assumes "well_formed e"
  shows "set (iter_effect e) = just_of ` set (tagged_values e)"
  unfolding iter_effect_well_formed [OF assms] tagged_values_def
  by (simp add: image_Un image_image)

lemma effect_ids_tagged_values:
  "effect_ids e = (\<lambda>s. id_of (just_of s)) ` set (tagged_values e)"
  by (simp add: effect_ids_def tagged_values_def ids_def image_Un image_image Un_assoc)

lemma value_with_state_by_value_image:
  assumes wf: "well_formed e"
  shows "value_with_state_by_value e ` {v \<in> set (iter_effect e). id_of v \<notin> K} =
     {s \<in> set (tagged_values e). id_of (just_of s) \<notin> K}"
proof (intro set_eqI iffI)
  fix s
  assume "s \<in> value_with_state_by_value e ` {v \<in> set (iter_effect e). id_of v \<notin> K}"
  then obtain v where v: "v \<in> set (iter_effect e)" "id_of v \<notin> K"
    and s: "s = value_with_state_by_value e v"
    by blast
  from v(1) have "v \<in> set (new_values e @ translated_values e @ mutated_values e @ dead_values e)"
    by (simp add: iter_effect_well_formed [OF wf])
  then have "s \<in> set (tagged_values e)"
    unfolding s by (rule value_with_state_by_value_tagged)
  moreover have "id_of (just_of s) \<notin> K"
    using v(2) by (simp add: s)
  ultimately show "s \<in> {s \<in> set (tagged_values e). id_of (just_of s) \<notin> K}"
    by simp
next
  fix s
  assume "s \<in> {s \<in> set (tagged_values e). id_of (just_of s) \<notin> K}"
  then have s: "s \<in> set (tagged_values e)" and k: "id_of (just_of s) \<notin> K"
    by simp_all
  have "just_of s \<in> set (iter_effect e)"
    using s by (simp add: set_iter_effect_well_formed [OF wf])
  with k have "just_of s \<in> {v \<in> set (iter_effect e). id_of v \<notin> K}"
    by simp
  then have "value_with_state_by_value e (just_of s)
      \<in> value_with_state_by_value e ` {v \<in> set (iter_effect e). id_of v \<notin> K}"
    by (rule imageI)
  then show "s \<in> value_with_state_by_value e ` {v \<in> set (iter_effect e). id_of v \<notin> K}"
    by (simp add: value_with_state_by_value_inverse [OF wf s])
qed

lemma value_with_state_by_identity_tagged:
  assumes wf: "well_formed e" and s: "s \<in> set (tagged_values e)"
    and w: "id_of w = id_of (just_of s)"
  shows "value_with_state_by_identity e (Identity w) = s"
proof -
  have "state_of e (id_of w) = Some s"
    using s w by (simp add: state_of_Some_iff [OF wf])
  then show ?thesis
    by (simp add: value_with_state_by_identity_state_of)
qed

lemma combined_id:
  assumes "state_and (value_with_state_by_identity l (Identity w))
             (value_with_state_by_identity r (Identity w)) = Inr u"
  shows "id_of (just_of u) = id_of w"
  using state_and_just_of [OF assms]
    id_of_value_with_state_by_identity [of l "Identity w"]
    id_of_value_with_state_by_identity [of r "Identity w"]
  by auto

lemma distinct_partition:
  "distinct (map id_of (ivs_sub (iter_effect l) (iter_effect r) @
      ivs_and (iter_effect l) (iter_effect r) @ ivs_sub (iter_effect r) (iter_effect l)))"
proof -
  let ?IL = "iter_effect l" and ?IR = "iter_effect r"
  have dl: "distinct (map id_of (ivs_sub ?IL ?IR))"
    unfolding ivs_sub_def by (rule distinct_map_filter [OF distinct_iter_effect])
  have dr: "distinct (map id_of (ivs_sub ?IR ?IL))"
    unfolding ivs_sub_def by (rule distinct_map_filter [OF distinct_iter_effect])
  have right: "distinct (map id_of (ivs_and ?IL ?IR @ ivs_sub ?IR ?IL))"
    unfolding ivs_and_def
  proof (rule distinct_map_filter_append [OF distinct_iter_effect dr])
    show "set (ivs_sub ?IR ?IL) \<subseteq> set ?IR"
      by (simp add: ivs_sub_def)
    show "\<not> id_of y \<in> ids ?IL" if "y \<in> set (ivs_sub ?IR ?IL)" for y
      using that by (simp add: ivs_sub_def)
  qed
  have "ids (ivs_sub ?IL ?IR) \<inter> ids ?IR = {}"
    by (auto simp: ivs_sub_def ids_def)
  moreover have "ids (ivs_and ?IL ?IR @ ivs_sub ?IR ?IL) \<subseteq> ids ?IR"
    by (auto simp: ivs_and_def ivs_sub_def ids_def)
  ultimately have "ids (ivs_sub ?IL ?IR) \<inter> ids (ivs_and ?IL ?IR @ ivs_sub ?IR ?IL) = {}"
    by blast
  then have "set (map id_of (ivs_sub ?IL ?IR))
      \<inter> set (map id_of (ivs_and ?IL ?IR @ ivs_sub ?IR ?IL)) = {}"
    by (simp only: ids_def)
  with dl right show ?thesis
    by (simp only: map_append distinct_append)
qed

lemma combined_set:
  assumes wfl: "well_formed l" and wfr: "well_formed r"
  shows "{u. \<exists>w \<in> set (ivs_and (iter_effect l) (iter_effect r)).
            state_and (value_with_state_by_identity l (Identity w))
              (value_with_state_by_identity r (Identity w)) = Inr u} =
         {u. \<exists>s \<in> set (tagged_values l). \<exists>t \<in> set (tagged_values r).
            id_of (just_of s) = id_of (just_of t) \<and> state_and s t = Inr u}"
proof (intro set_eqI iffI)
  fix u
  assume "u \<in> {u. \<exists>w \<in> set (ivs_and (iter_effect l) (iter_effect r)).
            state_and (value_with_state_by_identity l (Identity w))
              (value_with_state_by_identity r (Identity w)) = Inr u}"
  then obtain w where w: "w \<in> set (iter_effect r)" "id_of w \<in> effect_ids l"
    and u: "state_and (value_with_state_by_identity l (Identity w))
              (value_with_state_by_identity r (Identity w)) = Inr u"
    by (auto simp: ivs_and_def ids_iter_effect)
  from w(1) obtain t where t: "t \<in> set (tagged_values r)" "w = just_of t"
    unfolding set_iter_effect_well_formed [OF wfr] by blast
  from w(2) obtain s where s: "s \<in> set (tagged_values l)" "id_of w = id_of (just_of s)"
    unfolding effect_ids_tagged_values by blast
  have "value_with_state_by_identity l (Identity w) = s"
    using wfl s by (rule value_with_state_by_identity_tagged)
  moreover have "value_with_state_by_identity r (Identity w) = t"
    using wfr t(1) by (rule value_with_state_by_identity_tagged) (simp add: t(2))
  ultimately have "state_and s t = Inr u"
    using u by simp
  moreover have "id_of (just_of s) = id_of (just_of t)"
    using s(2) t(2) by simp
  ultimately show "u \<in> {u. \<exists>s \<in> set (tagged_values l). \<exists>t \<in> set (tagged_values r).
            id_of (just_of s) = id_of (just_of t) \<and> state_and s t = Inr u}"
    using s(1) t(1) by blast
next
  fix u
  assume "u \<in> {u. \<exists>s \<in> set (tagged_values l). \<exists>t \<in> set (tagged_values r).
            id_of (just_of s) = id_of (just_of t) \<and> state_and s t = Inr u}"
  then obtain s t where s: "s \<in> set (tagged_values l)" and t: "t \<in> set (tagged_values r)"
    and same: "id_of (just_of s) = id_of (just_of t)" and u: "state_and s t = Inr u"
    by blast
  let ?w = "just_of t"
  have "?w \<in> set (iter_effect r)"
    using t by (simp add: set_iter_effect_well_formed [OF wfr])
  moreover have "id_of ?w \<in> ids (iter_effect l)"
    unfolding ids_iter_effect effect_ids_tagged_values
    by (rule image_eqI [of _ _ s]) (simp_all add: s same)
  ultimately have mem: "?w \<in> set (ivs_and (iter_effect l) (iter_effect r))"
    by (simp add: ivs_and_def)
  have "value_with_state_by_identity l (Identity ?w) = s"
    using wfl s by (rule value_with_state_by_identity_tagged) (simp add: same)
  moreover have "value_with_state_by_identity r (Identity ?w) = t"
    using wfr t by (rule value_with_state_by_identity_tagged) simp
  ultimately have "state_and (value_with_state_by_identity l (Identity ?w))
              (value_with_state_by_identity r (Identity ?w)) = Inr u"
    using u by simp
  with mem show "u \<in> {u. \<exists>w \<in> set (ivs_and (iter_effect l) (iter_effect r)).
            state_and (value_with_state_by_identity l (Identity w))
              (value_with_state_by_identity r (Identity w)) = Inr u}"
    by blast
qed

lemma effect_and_tagged:
  assumes wfl: "well_formed l" and wfr: "well_formed r" and ok: "effect_and l r = Inr e"
  shows "well_formed e \<and>
    set (tagged_values e) =
      {s \<in> set (tagged_values l). id_of (just_of s) \<notin> effect_ids r} \<union>
      {u. \<not> is_NoValue u \<and>
          (\<exists>s \<in> set (tagged_values l). \<exists>t \<in> set (tagged_values r).
             id_of (just_of s) = id_of (just_of t) \<and> state_and s t = Inr u)} \<union>
      {t \<in> set (tagged_values r). id_of (just_of t) \<notin> effect_ids l}"
proof -
  let ?IL = "iter_effect l" and ?IR = "iter_effect r"
  let ?F = "\<lambda>w. state_and (value_with_state_by_identity l (Identity w))
                    (value_with_state_by_identity r (Identity w))"
  let ?A = "{s \<in> set (tagged_values l). id_of (just_of s) \<notin> effect_ids r}"
  let ?B = "{u. \<exists>s \<in> set (tagged_values l). \<exists>t \<in> set (tagged_values r).
             id_of (just_of s) = id_of (just_of t) \<and> state_and s t = Inr u}"
  let ?C = "{t \<in> set (tagged_values r). id_of (just_of t) \<notin> effect_ids l}"
  from ok obtain vs where
    vs: "collect (map (\<lambda>idn. state_and (value_with_state_by_identity l idn)
                                 (value_with_state_by_identity r idn))
                      (identities (ivs_and ?IL ?IR))) = Inr vs"
    and e: "e = of_values_with_state (just r)
                 (map (value_with_state_by_value l) (ivs_sub ?IL ?IR) @ vs @
                  map (value_with_state_by_value r) (ivs_sub ?IR ?IL))"
    unfolding effect_and_Inr_iff by blast
  let ?ws = "map (value_with_state_by_value l) (ivs_sub ?IL ?IR) @ vs @
               map (value_with_state_by_value r) (ivs_sub ?IR ?IL)"
  from vs have mapF: "map ?F (ivs_and ?IL ?IR) = map Inr vs"
    by (simp add: collect_Inr_iff identities_def o_def)
  have idvs: "map (\<lambda>s. id_of (just_of s)) vs = map id_of (ivs_and ?IL ?IR)"
    using mapF by (rule map_Inr_map) (rule combined_id)
  have "map (\<lambda>s. id_of (just_of s)) ?ws =
      map id_of (ivs_sub ?IL ?IR @ ivs_and ?IL ?IR @ ivs_sub ?IR ?IL)"
    by (simp add: idvs o_def)
  then have d: "distinct (map (\<lambda>s. id_of (just_of s)) ?ws)"
    using distinct_partition [of l r] by (simp only:)
  have wf: "well_formed e"
    unfolding e using d by (rule well_formed_of_values_with_state)
  have tagged: "set (tagged_values e) = {s \<in> set ?ws. \<not> is_NoValue s}"
    unfolding e using d by (rule set_tagged_values_of_values_with_state)
  have A: "set (map (value_with_state_by_value l) (ivs_sub ?IL ?IR)) = ?A"
    using value_with_state_by_value_image [OF wfl, of "effect_ids r"]
    by (simp add: ivs_sub_def ids_iter_effect)
  have C: "set (map (value_with_state_by_value r) (ivs_sub ?IR ?IL)) = ?C"
    using value_with_state_by_value_image [OF wfr, of "effect_ids l"]
    by (simp add: ivs_sub_def ids_iter_effect)
  have B: "set vs = ?B"
    unfolding map_Inr_set [OF mapF] by (rule combined_set [OF wfl wfr])
  have noA: "\<And>s. s \<in> ?A \<Longrightarrow> \<not> is_NoValue s"
    using tagged_values_not_NoValue by blast
  have noC: "\<And>s. s \<in> ?C \<Longrightarrow> \<not> is_NoValue s"
    using tagged_values_not_NoValue by blast
  have "set ?ws = ?A \<union> ?B \<union> ?C"
    using A B C by (simp only: set_append) blast
  then have "{s \<in> set ?ws. \<not> is_NoValue s} = ?A \<union> {u. \<not> is_NoValue u \<and> u \<in> ?B} \<union> ?C"
    using noA noC by blast
  with tagged wf show ?thesis
    by simp
qed

lemma state_of_both:
  assumes wfl: "well_formed l" and wfr: "well_formed r" and ok: "effect_and l r = Inr e"
    and s: "state_of l k = Some s" and t: "state_of r k = Some t"
  shows "(state_of e k = Some u) = (state_and s t = Inr u \<and> \<not> is_NoValue u)"
proof -
  note E = effect_and_tagged [OF wfl wfr ok]
  from E have wfe: "well_formed e" ..
  from s have sl: "s \<in> set (tagged_values l)" "id_of (just_of s) = k"
    by (simp_all add: state_of_SomeD)
  from t have tr: "t \<in> set (tagged_values r)" "id_of (just_of t) = k"
    by (simp_all add: state_of_SomeD)
  have kl: "k \<in> effect_ids l"
    unfolding effect_ids_tagged_values using sl by blast
  have kr: "k \<in> effect_ids r"
    unfolding effect_ids_tagged_values using tr by blast
  show ?thesis
  proof
    assume "state_of e k = Some u"
    then have u: "u \<in> set (tagged_values e)" "id_of (just_of u) = k"
      by (simp_all add: state_of_SomeD)
    from u(1) E have "u \<in> {s \<in> set (tagged_values l). id_of (just_of s) \<notin> effect_ids r} \<or>
      (\<not> is_NoValue u \<and>
          (\<exists>s \<in> set (tagged_values l). \<exists>t \<in> set (tagged_values r).
             id_of (just_of s) = id_of (just_of t) \<and> state_and s t = Inr u)) \<or>
      u \<in> {t \<in> set (tagged_values r). id_of (just_of t) \<notin> effect_ids l}"
      by blast
    then show "state_and s t = Inr u \<and> \<not> is_NoValue u"
    proof (elim disjE)
      assume "u \<in> {s \<in> set (tagged_values l). id_of (just_of s) \<notin> effect_ids r}"
      with u(2) kr show ?thesis by simp
    next
      assume "u \<in> {t \<in> set (tagged_values r). id_of (just_of t) \<notin> effect_ids l}"
      with u(2) kl show ?thesis by simp
    next
      assume b: "\<not> is_NoValue u \<and>
          (\<exists>s \<in> set (tagged_values l). \<exists>t \<in> set (tagged_values r).
             id_of (just_of s) = id_of (just_of t) \<and> state_and s t = Inr u)"
      then obtain s' t' where s': "s' \<in> set (tagged_values l)" and t': "t' \<in> set (tagged_values r)"
        and same: "id_of (just_of s') = id_of (just_of t')" and st: "state_and s' t' = Inr u"
        by blast
      from state_and_just_of [OF st] same u(2) have "id_of (just_of s') = k"
        by auto
      with same have ids: "id_of (just_of s') = id_of (just_of s)" "id_of (just_of t') = id_of (just_of t)"
        using sl(2) tr(2) by simp_all
      have "s' = s" by (rule tagged_unique [OF wfl s' sl(1) ids(1)])
      moreover have "t' = t" by (rule tagged_unique [OF wfr t' tr(1) ids(2)])
      ultimately show ?thesis using st b by simp
    qed
  next
    assume a: "state_and s t = Inr u \<and> \<not> is_NoValue u"
    then have st: "state_and s t = Inr u" and nn: "\<not> is_NoValue u" by simp_all
    have "\<exists>s \<in> set (tagged_values l). \<exists>t \<in> set (tagged_values r).
             id_of (just_of s) = id_of (just_of t) \<and> state_and s t = Inr u"
      by (rule bexI [OF _ sl(1)], rule bexI [OF _ tr(1)]) (simp add: sl(2) tr(2) st)
    with nn E have "u \<in> set (tagged_values e)"
      by blast
    moreover from state_and_just_of [OF st] sl(2) tr(2) have "id_of (just_of u) = k"
      by auto
    ultimately show "state_of e k = Some u"
      by (simp add: state_of_Some_iff [OF wfe])
  qed
qed

lemma state_of_left_only:
  assumes wfl: "well_formed l" and wfr: "well_formed r" and ok: "effect_and l r = Inr e"
    and s: "state_of l k = Some s" and k: "k \<notin> effect_ids r"
  shows "state_of e k = Some s"
proof -
  note E = effect_and_tagged [OF wfl wfr ok]
  from E have wfe: "well_formed e" ..
  from s have sl: "s \<in> set (tagged_values l)" "id_of (just_of s) = k"
    by (simp_all add: state_of_SomeD)
  with k have "s \<in> {s \<in> set (tagged_values l). id_of (just_of s) \<notin> effect_ids r}"
    by simp
  with E have "s \<in> set (tagged_values e)"
    by blast
  with sl(2) show ?thesis
    by (simp add: state_of_Some_iff [OF wfe])
qed

lemma state_of_right_only:
  assumes wfl: "well_formed l" and wfr: "well_formed r" and ok: "effect_and l r = Inr e"
    and k: "k \<notin> effect_ids l" and t: "state_of r k = Some t"
  shows "state_of e k = Some t"
proof -
  note E = effect_and_tagged [OF wfl wfr ok]
  from E have wfe: "well_formed e" ..
  from t have tr: "t \<in> set (tagged_values r)" "id_of (just_of t) = k"
    by (simp_all add: state_of_SomeD)
  with k have "t \<in> {t \<in> set (tagged_values r). id_of (just_of t) \<notin> effect_ids l}"
    by simp
  with E have "t \<in> set (tagged_values e)"
    by blast
  with tr(2) show ?thesis
    by (simp add: state_of_Some_iff [OF wfe])
qed

lemma effect_ids_effect_and:
  assumes wfl: "well_formed l" and wfr: "well_formed r" and ok: "effect_and l r = Inr e"
  shows "effect_ids e \<subseteq> effect_ids l \<union> effect_ids r"
proof
  fix k
  assume "k \<in> effect_ids e"
  then obtain u where u: "u \<in> set (tagged_values e)" and k: "k = id_of (just_of u)"
    unfolding effect_ids_tagged_values by blast
  note E = effect_and_tagged [OF wfl wfr ok]
  from u E have "u \<in> set (tagged_values l) \<or>
      (\<exists>s \<in> set (tagged_values l). \<exists>t \<in> set (tagged_values r). state_and s t = Inr u) \<or>
      u \<in> set (tagged_values r)"
    by blast
  then show "k \<in> effect_ids l \<union> effect_ids r"
  proof (elim disjE)
    assume "u \<in> set (tagged_values l)"
    then show ?thesis unfolding k effect_ids_tagged_values by blast
  next
    assume "u \<in> set (tagged_values r)"
    then show ?thesis unfolding k effect_ids_tagged_values by blast
  next
    assume "\<exists>s \<in> set (tagged_values l). \<exists>t \<in> set (tagged_values r). state_and s t = Inr u"
    then obtain s t where s: "s \<in> set (tagged_values l)" and t: "t \<in> set (tagged_values r)"
      and st: "state_and s t = Inr u"
      by blast
    from state_and_just_of [OF st] have "k = id_of (just_of s) \<or> k = id_of (just_of t)"
      unfolding k by auto
    with s t show ?thesis unfolding effect_ids_tagged_values by blast
  qed
qed

lemma state_of_effect_and:
  assumes wfl: "well_formed l" and wfr: "well_formed r" and ok: "effect_and l r = Inr e"
  shows "state_of e k = net (state_of l k) (state_of r k)"
proof (cases "state_of l k")
  case None
  note nl = this
  then have kl: "k \<notin> effect_ids l" by (simp add: state_of_None_iff)
  show ?thesis
  proof (cases "state_of r k")
    case None
    then have "k \<notin> effect_ids r" by (simp add: state_of_None_iff)
    with kl effect_ids_effect_and [OF wfl wfr ok] have "k \<notin> effect_ids e" by blast
    then have "state_of e k = None" by (simp add: state_of_None_iff)
    with nl None show ?thesis by simp
  next
    case (Some t)
    from state_of_right_only [OF wfl wfr ok kl Some] nl Some show ?thesis by simp
  qed
next
  case (Some s)
  note sl = this
  show ?thesis
  proof (cases "state_of r k")
    case None
    then have "k \<notin> effect_ids r" by (simp add: state_of_None_iff)
    from state_of_left_only [OF wfl wfr ok sl this] sl None show ?thesis by simp
  next
    case (Some t)
    note both = state_of_both [OF wfl wfr ok sl Some]
    show ?thesis
    proof (cases "state_and s t")
      case (Inl err)
      with both have "\<And>u. state_of e k \<noteq> Some u" by simp
      then have "state_of e k = None" by (cases "state_of e k") auto
      with sl Some Inl show ?thesis by simp
    next
      case (Inr u)
      show ?thesis
      proof (cases "is_NoValue u")
        case True
        with both Inr have "\<And>u'. state_of e k \<noteq> Some u'" by auto
        then have "state_of e k = None" by (cases "state_of e k") auto
        with sl Some Inr True show ?thesis by simp
      next
        case False
        with both Inr have "state_of e k = Some u" by simp
        with sl Some Inr False show ?thesis by simp
      qed
    qed
  qed
qed

section \<open>Grouping three Effects\<close>

lemma net_None_right [simp]: "net x None = x"
  by (cases x) simp_all

lemma net_assoc_tags:
  assumes "state_and s t \<noteq> Inl InvalidStateTransitionError"
    and "state_and t r \<noteq> Inl InvalidStateTransitionError"
    and "\<not> nets_out s t r"
    and "\<not> is_NoValue s" "\<not> is_NoValue t" "\<not> is_NoValue r"
  shows "net (net (Some s) (Some t)) (Some r) = net (Some s) (net (Some t) (Some r))"
  using assms by (cases s; cases t; cases r; simp add: nets_out_def)

lemma net_assoc:
  assumes "\<And>s t. x = Some s \<Longrightarrow> y = Some t \<Longrightarrow> state_and s t \<noteq> Inl InvalidStateTransitionError"
    and "\<And>t r. y = Some t \<Longrightarrow> z = Some r \<Longrightarrow> state_and t r \<noteq> Inl InvalidStateTransitionError"
    and "\<And>s t r. x = Some s \<Longrightarrow> y = Some t \<Longrightarrow> z = Some r \<Longrightarrow> \<not> nets_out s t r"
    and "\<And>s. x = Some s \<Longrightarrow> \<not> is_NoValue s"
    and "\<And>s. y = Some s \<Longrightarrow> \<not> is_NoValue s"
    and "\<And>s. z = Some s \<Longrightarrow> \<not> is_NoValue s"
  shows "net (net x y) z = net x (net y z)"
proof (cases x)
  case None
  then show ?thesis by simp
next
  case xs: (Some s)
  show ?thesis
  proof (cases y)
    case None
    with xs show ?thesis by simp
  next
    case ys: (Some t)
    show ?thesis
    proof (cases z)
      case None
      with xs ys show ?thesis by simp
    next
      case zs: (Some r)
      show ?thesis
        unfolding xs ys zs
        by (rule net_assoc_tags)
          (simp_all add: assms(1) [OF xs ys] assms(2) [OF ys zs] assms(3) [OF xs ys zs]
            assms(4) [OF xs] assms(5) [OF ys] assms(6) [OF zs])
    qed
  qed
qed

lemma just_effect_and: "effect_and l r = Inr e \<Longrightarrow> just e = just r"
  by (auto simp: effect_and_Inr_iff of_values_with_state_def)

lemma state_of_bucket:
  assumes "state_of e k = Some s"
  shows "(is_NewValue s \<longrightarrow> k \<in> ids (new_values e)) \<and>
    (is_TranslatedValue s \<longrightarrow> k \<in> ids (translated_values e)) \<and>
    (is_MutatedValue s \<longrightarrow> k \<in> ids (mutated_values e)) \<and>
    (is_DeadValue s \<longrightarrow> k \<in> ids (dead_values e))"
proof -
  from assms have "s \<in> set (tagged_values e)" "id_of (just_of s) = k"
    by (simp_all add: state_of_SomeD)
  then show ?thesis
    by (auto simp: tagged_values_def ids_def)
qed

lemma valid_pair:
  assumes wfl: "well_formed l" and wfr: "well_formed r" and ok: "effect_and l r = Inr e"
    and s: "state_of l k = Some s" and t: "state_of r k = Some t"
  shows "state_and s t \<noteq> Inl InvalidStateTransitionError"
proof
  assume bad: "state_and s t = Inl InvalidStateTransitionError"
  from s have sl: "s \<in> set (tagged_values l)" "id_of (just_of s) = k"
    by (simp_all add: state_of_SomeD)
  from t have tr: "t \<in> set (tagged_values r)" "id_of (just_of t) = k"
    by (simp_all add: state_of_SomeD)
  let ?w = "just_of t"
  have w: "?w \<in> set (iter_effect r)"
    using tr(1) by (simp add: set_iter_effect_well_formed [OF wfr])
  have "id_of ?w = (\<lambda>s. id_of (just_of s)) s"
    using sl(2) tr(2) by simp
  then have kl: "id_of ?w \<in> effect_ids l"
    unfolding effect_ids_tagged_values using sl(1) by (rule image_eqI)
  have "value_with_state_by_identity l (Identity ?w) = s"
    using wfl sl(1) by (rule value_with_state_by_identity_tagged) (simp add: sl(2) tr(2))
  moreover have "value_with_state_by_identity r (Identity ?w) = t"
    using wfr tr(1) by (rule value_with_state_by_identity_tagged) simp
  ultimately have "state_and (value_with_state_by_identity l (Identity ?w))
      (value_with_state_by_identity r (Identity ?w)) = Inl InvalidStateTransitionError"
    using bad by simp
  with kl have "id_of ?w \<in> effect_ids l \<and>
      state_and (value_with_state_by_identity l (Identity ?w))
        (value_with_state_by_identity r (Identity ?w)) = Inl InvalidStateTransitionError"
    by simp
  with w have "effect_and l r = Inl InvalidStateTransitionError"
    unfolding effect_and_Inl_iff by (rule bexI [rotated])
  with ok show False by simp
qed

lemma set_tagged_values_state_of:
  assumes "well_formed e"
  shows "set (tagged_values e) = {s. state_of e (id_of (just_of s)) = Some s}"
  by (simp add: state_of_Some_iff [OF assms])

lemma buckets_of_tagged_values:
  "set (new_values e) = {v. NewValue v \<in> set (tagged_values e)}"
  "set (translated_values e) = {v. TranslatedValue v \<in> set (tagged_values e)}"
  "set (mutated_values e) = {v. MutatedValue v \<in> set (tagged_values e)}"
  "set (dead_values e) = {v. DeadValue v \<in> set (tagged_values e)}"
  by (auto simp: tagged_values_def)

lemma effect_eq_state_of:
  assumes wf: "well_formed e" and wf': "well_formed e'" and j: "just e = just e'"
    and st: "\<And>k. state_of e k = state_of e' k"
  shows "effect_eq e e'"
proof -
  have "set (tagged_values e) = set (tagged_values e')"
    unfolding set_tagged_values_state_of [OF wf] set_tagged_values_state_of [OF wf']
    by (simp add: st)
  then show ?thesis
    unfolding effect_eq_def ivs_eq_def buckets_of_tagged_values using j by simp
qed

text \<open>
  C5, as stated, fails. The Effect that creates a value, one that deletes it and another
  that deletes it again combine without error in both groupings, and the two results
  differ: grouped to the left, creation and deletion cancel first and the second
  deletion stays in the dead bucket; grouped to the right, the two deletions merge first
  and cancel the creation, so that no bucket holds the identity.
\<close>

theorem effect_and_assoc_counterexample:
  "well_formed
     \<lparr>just = IdentifiedValue (0::nat) (1::nat), new_values = [IdentifiedValue (0::nat) (1::nat)], translated_values = [],
      mutated_values = [], dead_values = []\<rparr> \<and>
   well_formed
     \<lparr>just = IdentifiedValue (0::nat) (2::nat), new_values = [], translated_values = [],
      mutated_values = [], dead_values = [IdentifiedValue (0::nat) (2::nat)]\<rparr> \<and>
   well_formed
     \<lparr>just = IdentifiedValue (0::nat) (3::nat), new_values = [], translated_values = [],
      mutated_values = [], dead_values = [IdentifiedValue (0::nat) (3::nat)]\<rparr> \<and>
   effect_and
     \<lparr>just = IdentifiedValue (0::nat) (1::nat), new_values = [IdentifiedValue (0::nat) (1::nat)], translated_values = [],
      mutated_values = [], dead_values = []\<rparr>
     \<lparr>just = IdentifiedValue (0::nat) (2::nat), new_values = [], translated_values = [],
      mutated_values = [], dead_values = [IdentifiedValue (0::nat) (2::nat)]\<rparr>
   = Inr \<lparr>just = IdentifiedValue (0::nat) (2::nat), new_values = [], translated_values = [],
      mutated_values = [], dead_values = []\<rparr> \<and>
   effect_and
     \<lparr>just = IdentifiedValue (0::nat) (2::nat), new_values = [], translated_values = [],
      mutated_values = [], dead_values = []\<rparr>
     \<lparr>just = IdentifiedValue (0::nat) (3::nat), new_values = [], translated_values = [],
      mutated_values = [], dead_values = [IdentifiedValue (0::nat) (3::nat)]\<rparr>
   = Inr \<lparr>just = IdentifiedValue (0::nat) (3::nat), new_values = [], translated_values = [],
      mutated_values = [], dead_values = [IdentifiedValue (0::nat) (3::nat)]\<rparr> \<and>
   effect_and
     \<lparr>just = IdentifiedValue (0::nat) (2::nat), new_values = [], translated_values = [],
      mutated_values = [], dead_values = [IdentifiedValue (0::nat) (2::nat)]\<rparr>
     \<lparr>just = IdentifiedValue (0::nat) (3::nat), new_values = [], translated_values = [],
      mutated_values = [], dead_values = [IdentifiedValue (0::nat) (3::nat)]\<rparr>
   = Inr \<lparr>just = IdentifiedValue (0::nat) (3::nat), new_values = [], translated_values = [],
      mutated_values = [], dead_values = [IdentifiedValue (0::nat) (3::nat)]\<rparr> \<and>
   effect_and
     \<lparr>just = IdentifiedValue (0::nat) (1::nat), new_values = [IdentifiedValue (0::nat) (1::nat)], translated_values = [],
      mutated_values = [], dead_values = []\<rparr>
     \<lparr>just = IdentifiedValue (0::nat) (3::nat), new_values = [], translated_values = [],
      mutated_values = [], dead_values = [IdentifiedValue (0::nat) (3::nat)]\<rparr>
   = Inr \<lparr>just = IdentifiedValue (0::nat) (3::nat), new_values = [], translated_values = [],
      mutated_values = [], dead_values = []\<rparr> \<and>
   \<not> effect_eq
     \<lparr>just = IdentifiedValue (0::nat) (3::nat), new_values = [], translated_values = [],
      mutated_values = [], dead_values = [IdentifiedValue (0::nat) (3::nat)]\<rparr>
     \<lparr>just = IdentifiedValue (0::nat) (3::nat), new_values = [], translated_values = [],
      mutated_values = [], dead_values = []\<rparr>"
  by (simp add: well_formed_def effect_eq_def ivs_eq_def effect_and_def iter_effect_def
      ivs_or_def ivs_and_def ivs_sub_def identities_def value_with_state_by_identity_def
      value_with_state_by_value_def identity_eq_def of_values_with_state_def contains_def)

text \<open>
  C5, amended. For well-formed Effects \<open>a\<close>, \<open>b\<close>, \<open>c\<close> such that no step of either grouping
  raises, \<^verbatim>\<open>(a & b) & c\<close> and \<^verbatim>\<open>a & (b & c)\<close> have the same primary value and the same four
  buckets (compared as identity-keyed sets), provided that no identity of the dead
  bucket of \<open>c\<close> is in the new or translated bucket of \<open>a\<close> and in the dead bucket of \<open>b\<close>,
  or in the new buckets of both \<open>a\<close> and \<open>b\<close>, or in the translated buckets of both.
\<close>

theorem effect_and_assoc:
  assumes wfa: "well_formed a" and wfb: "well_formed b" and wfc: "well_formed c"
    and ab: "effect_and a b = Inr ab" and abc: "effect_and ab c = Inr l"
    and bc: "effect_and b c = Inr bc" and abc': "effect_and a bc = Inr r"
    and excl: "ids (dead_values c) \<inter>
       ((ids (new_values a) \<union> ids (translated_values a)) \<inter> ids (dead_values b) \<union>
        ids (new_values a) \<inter> ids (new_values b) \<union>
        ids (translated_values a) \<inter> ids (translated_values b)) = {}"
  shows "effect_eq l r"
proof -
  note AB = effect_and_tagged [OF wfa wfb ab]
  from AB have wfab: "well_formed ab" ..
  note BC = effect_and_tagged [OF wfb wfc bc]
  from BC have wfbc: "well_formed bc" ..
  from effect_and_tagged [OF wfab wfc abc] have wfl: "well_formed l" ..
  from effect_and_tagged [OF wfa wfbc abc'] have wfr: "well_formed r" ..
  have "just l = just r"
    using just_effect_and [OF abc] just_effect_and [OF abc'] just_effect_and [OF bc] by simp
  moreover have "state_of l k = state_of r k" for k
  proof -
    have left: "state_of l k = net (net (state_of a k) (state_of b k)) (state_of c k)"
      by (simp add: state_of_effect_and [OF wfab wfc abc] state_of_effect_and [OF wfa wfb ab])
    have right: "state_of r k = net (state_of a k) (net (state_of b k) (state_of c k))"
      by (simp add: state_of_effect_and [OF wfa wfbc abc'] state_of_effect_and [OF wfb wfc bc])
    have "net (net (state_of a k) (state_of b k)) (state_of c k)
        = net (state_of a k) (net (state_of b k) (state_of c k))"
    proof (rule net_assoc)
      fix s t
      assume "state_of a k = Some s" "state_of b k = Some t"
      then show "state_and s t \<noteq> Inl InvalidStateTransitionError"
        by (rule valid_pair [OF wfa wfb ab])
    next
      fix t u
      assume "state_of b k = Some t" "state_of c k = Some u"
      then show "state_and t u \<noteq> Inl InvalidStateTransitionError"
        by (rule valid_pair [OF wfb wfc bc])
    next
      fix s t u
      assume s: "state_of a k = Some s" and t: "state_of b k = Some t"
        and u: "state_of c k = Some u"
      show "\<not> nets_out s t u"
      proof
        assume "nets_out s t u"
        with state_of_bucket [OF s] state_of_bucket [OF t] state_of_bucket [OF u]
        have "k \<in> ids (dead_values c) \<inter>
       ((ids (new_values a) \<union> ids (translated_values a)) \<inter> ids (dead_values b) \<union>
        ids (new_values a) \<inter> ids (new_values b) \<union>
        ids (translated_values a) \<inter> ids (translated_values b))"
          unfolding nets_out_def by blast
        with excl show False by blast
      qed
    next
      fix s assume "state_of a k = Some s"
      then show "\<not> is_NoValue s" by (rule state_of_not_NoValue)
    next
      fix s assume "state_of b k = Some s"
      then show "\<not> is_NoValue s" by (rule state_of_not_NoValue)
    next
      fix s assume "state_of c k = Some s"
      then show "\<not> is_NoValue s" by (rule state_of_not_NoValue)
    qed
    with left right show ?thesis by simp
  qed
  ultimately show ?thesis
    using wfl wfr by (intro effect_eq_state_of)
qed

theorem effect_and_assoc_witness:
  "well_formed
     \<lparr>just = (0::nat), new_values = [IdentifiedValue (0::nat) (1::nat)], translated_values = [],
      mutated_values = [IdentifiedValue (1::nat) (1::nat)], dead_values = []\<rparr> \<and>
   well_formed
     \<lparr>just = (1::nat), new_values = [IdentifiedValue (2::nat) (1::nat)], translated_values = [],
      mutated_values = [IdentifiedValue (0::nat) (2::nat)], dead_values = []\<rparr> \<and>
   well_formed
     \<lparr>just = True, new_values = [], translated_values = [],
      mutated_values = [IdentifiedValue (2::nat) (2::nat)], dead_values = [IdentifiedValue (1::nat) (2::nat)]\<rparr> \<and>
   effect_and
     \<lparr>just = (0::nat), new_values = [IdentifiedValue (0::nat) (1::nat)], translated_values = [],
      mutated_values = [IdentifiedValue (1::nat) (1::nat)], dead_values = []\<rparr>
     \<lparr>just = (1::nat), new_values = [IdentifiedValue (2::nat) (1::nat)], translated_values = [],
      mutated_values = [IdentifiedValue (0::nat) (2::nat)], dead_values = []\<rparr>
   = Inr \<lparr>just = (1::nat), new_values = [IdentifiedValue (0::nat) (2::nat), IdentifiedValue (2::nat) (1::nat)], translated_values = [],
      mutated_values = [IdentifiedValue (1::nat) (1::nat)], dead_values = []\<rparr> \<and>
   effect_and
     \<lparr>just = (1::nat), new_values = [IdentifiedValue (0::nat) (2::nat), IdentifiedValue (2::nat) (1::nat)], translated_values = [],
      mutated_values = [IdentifiedValue (1::nat) (1::nat)], dead_values = []\<rparr>
     \<lparr>just = True, new_values = [], translated_values = [],
      mutated_values = [IdentifiedValue (2::nat) (2::nat)], dead_values = [IdentifiedValue (1::nat) (2::nat)]\<rparr>
   = Inr \<lparr>just = True, new_values = [IdentifiedValue (0::nat) (2::nat), IdentifiedValue (2::nat) (2::nat)], translated_values = [],
      mutated_values = [], dead_values = [IdentifiedValue (1::nat) (2::nat)]\<rparr> \<and>
   effect_and
     \<lparr>just = (1::nat), new_values = [IdentifiedValue (2::nat) (1::nat)], translated_values = [],
      mutated_values = [IdentifiedValue (0::nat) (2::nat)], dead_values = []\<rparr>
     \<lparr>just = True, new_values = [], translated_values = [],
      mutated_values = [IdentifiedValue (2::nat) (2::nat)], dead_values = [IdentifiedValue (1::nat) (2::nat)]\<rparr>
   = Inr \<lparr>just = True, new_values = [IdentifiedValue (2::nat) (2::nat)], translated_values = [],
      mutated_values = [IdentifiedValue (0::nat) (2::nat)], dead_values = [IdentifiedValue (1::nat) (2::nat)]\<rparr> \<and>
   effect_and
     \<lparr>just = (0::nat), new_values = [IdentifiedValue (0::nat) (1::nat)], translated_values = [],
      mutated_values = [IdentifiedValue (1::nat) (1::nat)], dead_values = []\<rparr>
     \<lparr>just = True, new_values = [IdentifiedValue (2::nat) (2::nat)], translated_values = [],
      mutated_values = [IdentifiedValue (0::nat) (2::nat)], dead_values = [IdentifiedValue (1::nat) (2::nat)]\<rparr>
   = Inr \<lparr>just = True, new_values = [IdentifiedValue (0::nat) (2::nat), IdentifiedValue (2::nat) (2::nat)], translated_values = [],
      mutated_values = [], dead_values = [IdentifiedValue (1::nat) (2::nat)]\<rparr> \<and>
   effect_eq
     \<lparr>just = True, new_values = [IdentifiedValue (0::nat) (2::nat), IdentifiedValue (2::nat) (2::nat)], translated_values = [],
      mutated_values = [], dead_values = [IdentifiedValue (1::nat) (2::nat)]\<rparr>
     \<lparr>just = True, new_values = [IdentifiedValue (0::nat) (2::nat), IdentifiedValue (2::nat) (2::nat)], translated_values = [],
      mutated_values = [], dead_values = [IdentifiedValue (1::nat) (2::nat)]\<rparr>"
proof -
  have wa: "well_formed
     \<lparr>just = (0::nat), new_values = [IdentifiedValue (0::nat) (1::nat)], translated_values = [],
      mutated_values = [IdentifiedValue (1::nat) (1::nat)], dead_values = []\<rparr>"
    by (simp add: well_formed_def)
  have wb: "well_formed
     \<lparr>just = (1::nat), new_values = [IdentifiedValue (2::nat) (1::nat)], translated_values = [],
      mutated_values = [IdentifiedValue (0::nat) (2::nat)], dead_values = []\<rparr>"
    by (simp add: well_formed_def)
  have wc: "well_formed
     \<lparr>just = True, new_values = [], translated_values = [],
      mutated_values = [IdentifiedValue (2::nat) (2::nat)], dead_values = [IdentifiedValue (1::nat) (2::nat)]\<rparr>"
    by (simp add: well_formed_def)
  have ab: "effect_and
     \<lparr>just = (0::nat), new_values = [IdentifiedValue (0::nat) (1::nat)], translated_values = [],
      mutated_values = [IdentifiedValue (1::nat) (1::nat)], dead_values = []\<rparr>
     \<lparr>just = (1::nat), new_values = [IdentifiedValue (2::nat) (1::nat)], translated_values = [],
      mutated_values = [IdentifiedValue (0::nat) (2::nat)], dead_values = []\<rparr>
   = Inr \<lparr>just = (1::nat), new_values = [IdentifiedValue (0::nat) (2::nat), IdentifiedValue (2::nat) (1::nat)], translated_values = [],
      mutated_values = [IdentifiedValue (1::nat) (1::nat)], dead_values = []\<rparr>"
    by (simp add: effect_and_def iter_effect_def ivs_or_def ivs_and_def ivs_sub_def
        identities_def value_with_state_by_identity_def value_with_state_by_value_def
        identity_eq_def of_values_with_state_def contains_def)
  have abc: "effect_and
     \<lparr>just = (1::nat), new_values = [IdentifiedValue (0::nat) (2::nat), IdentifiedValue (2::nat) (1::nat)], translated_values = [],
      mutated_values = [IdentifiedValue (1::nat) (1::nat)], dead_values = []\<rparr>
     \<lparr>just = True, new_values = [], translated_values = [],
      mutated_values = [IdentifiedValue (2::nat) (2::nat)], dead_values = [IdentifiedValue (1::nat) (2::nat)]\<rparr>
   = Inr \<lparr>just = True, new_values = [IdentifiedValue (0::nat) (2::nat), IdentifiedValue (2::nat) (2::nat)], translated_values = [],
      mutated_values = [], dead_values = [IdentifiedValue (1::nat) (2::nat)]\<rparr>"
    by (simp add: effect_and_def iter_effect_def ivs_or_def ivs_and_def ivs_sub_def
        identities_def value_with_state_by_identity_def value_with_state_by_value_def
        identity_eq_def of_values_with_state_def contains_def)
  have bc: "effect_and
     \<lparr>just = (1::nat), new_values = [IdentifiedValue (2::nat) (1::nat)], translated_values = [],
      mutated_values = [IdentifiedValue (0::nat) (2::nat)], dead_values = []\<rparr>
     \<lparr>just = True, new_values = [], translated_values = [],
      mutated_values = [IdentifiedValue (2::nat) (2::nat)], dead_values = [IdentifiedValue (1::nat) (2::nat)]\<rparr>
   = Inr \<lparr>just = True, new_values = [IdentifiedValue (2::nat) (2::nat)], translated_values = [],
      mutated_values = [IdentifiedValue (0::nat) (2::nat)], dead_values = [IdentifiedValue (1::nat) (2::nat)]\<rparr>"
    by (simp add: effect_and_def iter_effect_def ivs_or_def ivs_and_def ivs_sub_def
        identities_def value_with_state_by_identity_def value_with_state_by_value_def
        identity_eq_def of_values_with_state_def contains_def)
  have abc': "effect_and
     \<lparr>just = (0::nat), new_values = [IdentifiedValue (0::nat) (1::nat)], translated_values = [],
      mutated_values = [IdentifiedValue (1::nat) (1::nat)], dead_values = []\<rparr>
     \<lparr>just = True, new_values = [IdentifiedValue (2::nat) (2::nat)], translated_values = [],
      mutated_values = [IdentifiedValue (0::nat) (2::nat)], dead_values = [IdentifiedValue (1::nat) (2::nat)]\<rparr>
   = Inr \<lparr>just = True, new_values = [IdentifiedValue (0::nat) (2::nat), IdentifiedValue (2::nat) (2::nat)], translated_values = [],
      mutated_values = [], dead_values = [IdentifiedValue (1::nat) (2::nat)]\<rparr>"
    by (simp add: effect_and_def iter_effect_def ivs_or_def ivs_and_def ivs_sub_def
        identities_def value_with_state_by_identity_def value_with_state_by_value_def
        identity_eq_def of_values_with_state_def contains_def)
  have excl: "ids (dead_values \<lparr>just = True, new_values = [], translated_values = [],
      mutated_values = [IdentifiedValue (2::nat) (2::nat)], dead_values = [IdentifiedValue (1::nat) (2::nat)]\<rparr>) \<inter>
       ((ids (new_values \<lparr>just = (0::nat), new_values = [IdentifiedValue (0::nat) (1::nat)], translated_values = [],
      mutated_values = [IdentifiedValue (1::nat) (1::nat)], dead_values = []\<rparr>) \<union> ids (translated_values \<lparr>just = (0::nat), new_values = [IdentifiedValue (0::nat) (1::nat)], translated_values = [],
      mutated_values = [IdentifiedValue (1::nat) (1::nat)], dead_values = []\<rparr>)) \<inter> ids (dead_values \<lparr>just = (1::nat), new_values = [IdentifiedValue (2::nat) (1::nat)], translated_values = [],
      mutated_values = [IdentifiedValue (0::nat) (2::nat)], dead_values = []\<rparr>) \<union>
        ids (new_values \<lparr>just = (0::nat), new_values = [IdentifiedValue (0::nat) (1::nat)], translated_values = [],
      mutated_values = [IdentifiedValue (1::nat) (1::nat)], dead_values = []\<rparr>) \<inter> ids (new_values \<lparr>just = (1::nat), new_values = [IdentifiedValue (2::nat) (1::nat)], translated_values = [],
      mutated_values = [IdentifiedValue (0::nat) (2::nat)], dead_values = []\<rparr>) \<union>
        ids (translated_values \<lparr>just = (0::nat), new_values = [IdentifiedValue (0::nat) (1::nat)], translated_values = [],
      mutated_values = [IdentifiedValue (1::nat) (1::nat)], dead_values = []\<rparr>) \<inter> ids (translated_values \<lparr>just = (1::nat), new_values = [IdentifiedValue (2::nat) (1::nat)], translated_values = [],
      mutated_values = [IdentifiedValue (0::nat) (2::nat)], dead_values = []\<rparr>)) = {}"
    by simp
  have "effect_eq
     \<lparr>just = True, new_values = [IdentifiedValue (0::nat) (2::nat), IdentifiedValue (2::nat) (2::nat)], translated_values = [],
      mutated_values = [], dead_values = [IdentifiedValue (1::nat) (2::nat)]\<rparr>
     \<lparr>just = True, new_values = [IdentifiedValue (0::nat) (2::nat), IdentifiedValue (2::nat) (2::nat)], translated_values = [],
      mutated_values = [], dead_values = [IdentifiedValue (1::nat) (2::nat)]\<rparr>"
    by (rule effect_and_assoc [OF wa wb wc ab abc bc abc' excl])
  with wa wb wc ab abc bc abc' show ?thesis
    by (intro conjI)
qed

end
